theory Spec2Isabelle
  imports Main "HOL-Library.Multiset" "HOL-Library.Sublist"
begin

unbundle bit_operations_syntax

section \<open>Term model (include/ast.h, include/defs.h)\<close>

text \<open>
  \<^verbatim>\<open>parser::Location\<close> is a pair of \<^verbatim>\<open>size_t\<close>; the evaluator only copies it.
\<close>

record Location =
  loc_begin :: nat
  loc_length :: nat

text \<open>
  The class hierarchy \<^verbatim>\<open>Expr\<close> / \<^verbatim>\<open>Var\<close> / \<^verbatim>\<open>Apply\<close> / \<^verbatim>\<open>Lambda\<close> / \<^verbatim>\<open>Let\<close>.
  Field order follows the constructors of ast.h: \<^verbatim>\<open>Lambda(loc, argloc, arg, body)\<close>.
  Nothing in the type keeps a \<^verbatim>\<open>Let\<close> from sitting below another node, so the model
  allows it as well and the traversals meet it with \<^verbatim>\<open>abort()\<close>.
\<close>

datatype Expr =
    Var (Var_loc: Location) (Var_name: string)
  | Apply (Apply_loc: Location) (Apply_fn: Expr) (Apply_arg: Expr)
  | Lambda (Lambda_loc: Location) (Lambda_argloc: Location) (Lambda_arg: string) (Lambda_body: Expr)
  | Let (Let_loc: Location) (Let_name: string) (Let_value: Expr)

text \<open>The only failure of the evaluator: the \<^verbatim>\<open>abort()\<close> in the final \<^verbatim>\<open>else\<close> of a traversal.\<close>

datatype error = Abort

text \<open>
  Nodes are heap objects and several functions keep pointers to them. Expressions own
  their children and are never shared, so a node is identified by the slots followed
  from the root of its tree: \<^verbatim>\<open>&a->fn\<close>, \<^verbatim>\<open>&a->arg\<close>, \<^verbatim>\<open>&l->body\<close>.
  A \<^verbatim>\<open>const Var*\<close> is kept together with the name it points at (the name of a node of
  the argument is not written while the pointer is alive).
\<close>

datatype slot = fn_slot | arg_slot | body_slot

type_synonym ptr = "slot list"

type_synonym var_ptr = "ptr \<times> string"

text \<open>
  A \<^verbatim>\<open>std::set<const Var*>\<close> iterates in the order of the pointer values, which the
  allocator decides and the term does not. A layout gives, for the \<^verbatim>\<open>for\<close> loop that
  starts when the step counter has a given value, the address of each node of the
  argument; iteration sorts by it. Every statement below is for all layouts unless it
  names one.
\<close>

type_synonym layout = "int \<Rightarrow> ptr \<Rightarrow> nat"

definition iteration_order :: "layout \<Rightarrow> int \<Rightarrow> var_ptr list \<Rightarrow> var_ptr list" where
  "iteration_order addr step vs = sort_key (\<lambda>v. addr step (fst v)) vs"

record Context =
  flags :: int
  vars :: "string \<rightharpoonup> Expr"

definition FLAG_TRACE :: int where
  "FLAG_TRACE = 0x10"

definition FLAG_FULL_TRACE :: int where
  "FLAG_FULL_TRACE = 0x20"

text \<open>
  The lines written by \<^verbatim>\<open>print_trace\<close>. A printed term is kept as the term. The
  highlighted before/after pairs that \<^verbatim>\<open>do_transform\<close> adds under
  \<^verbatim>\<open>FLAG_FULL_TRACE\<close> come from the printer and are not modelled.
\<close>

datatype event =
    Defined string bool
  | Start Expr
  | AlphaCon int string string
  | BetaRed int string Expr
  | Done

definition print_trace :: "int \<Rightarrow> event \<Rightarrow> event list" where
  "print_trace print_flags ev = (if print_flags AND FLAG_TRACE \<noteq> 0 then [ev] else [])"

fun clone :: "Expr \<Rightarrow> Expr" where
  "clone (Var l s) = Var l s"
| "clone (Apply l f a) = Apply l (clone f) (clone a)"
| "clone (Lambda l al x b) = Lambda l al x (clone b)"
| "clone (Let l n v) = Let l n (clone v)"

section \<open>Variable analysis (eval.cpp)\<close>

text \<open>
  \<^verbatim>\<open>seen.insert({ l->arg, l })\<close> on a \<^verbatim>\<open>std::map\<close> keeps an entry that is already there.
\<close>

definition map_insert :: "('k \<rightharpoonup> 'v) \<Rightarrow> 'k \<Rightarrow> 'v \<Rightarrow> ('k \<rightharpoonup> 'v)" where
  "map_insert m k v = (if m k = None then m(k \<mapsto> v) else m)"

text \<open>\<^verbatim>\<open>_find_variables<false>\<close>; \<open>p\<close> is the pointer \<^verbatim>\<open>expr\<close> itself.\<close>

fun find_variables_free :: "(string \<rightharpoonup> ptr) \<Rightarrow> ptr \<Rightarrow> Expr \<Rightarrow> error + var_ptr list" where
  "find_variables_free seen p (Var l n) = Inr (if seen n = None then [(p, n)] else [])"
| "find_variables_free seen p (Apply l f a) =
     (case find_variables_free seen (p @ [fn_slot]) f of
        Inl e \<Rightarrow> Inl e
      | Inr x \<Rightarrow>
          (case find_variables_free seen (p @ [arg_slot]) a of
             Inl e \<Rightarrow> Inl e
           | Inr y \<Rightarrow> Inr (x @ y)))"
| "find_variables_free seen p (Lambda l al x b) =
     find_variables_free (map_insert seen x p) (p @ [body_slot]) b"
| "find_variables_free seen p (Let l n v) = Inl Abort"

text \<open>
  \<^verbatim>\<open>_find_variables<true>\<close>. \<^verbatim>\<open>ret.insert(x.begin(), x.end())\<close> followed by the same for
  \<^verbatim>\<open>y\<close> keeps the entry of \<^verbatim>\<open>x\<close> for a key that both have.
\<close>

fun find_variables_bound :: "(string \<rightharpoonup> ptr) \<Rightarrow> ptr \<Rightarrow> Expr \<Rightarrow> error + (string \<rightharpoonup> ptr)" where
  "find_variables_bound seen p (Var l n) =
     Inr (case seen n of Some lam \<Rightarrow> [n \<mapsto> lam] | None \<Rightarrow> Map.empty)"
| "find_variables_bound seen p (Apply l f a) =
     (case find_variables_bound seen (p @ [fn_slot]) f of
        Inl e \<Rightarrow> Inl e
      | Inr x \<Rightarrow>
          (case find_variables_bound seen (p @ [arg_slot]) a of
             Inl e \<Rightarrow> Inl e
           | Inr y \<Rightarrow> Inr (y ++ x)))"
| "find_variables_bound seen p (Lambda l al x b) =
     find_variables_bound (map_insert seen x p) (p @ [body_slot]) b"
| "find_variables_bound seen p (Let l n v) = Inl Abort"

definition find_free_variables :: "Expr \<Rightarrow> error + var_ptr list" where
  "find_free_variables expr = find_variables_free Map.empty [] expr"

definition find_bound_variables :: "Expr \<Rightarrow> error + (string \<rightharpoonup> ptr)" where
  "find_bound_variables expr = find_variables_bound Map.empty [] expr"

definition fresh_name :: "string \<Rightarrow> string" where
  "fresh_name name = name @ [CHR 0x27]"

section \<open>Rewriter (eval.cpp)\<close>

text \<open>
  \<^verbatim>\<open>find_substitutions\<close> returns the slots (\<^verbatim>\<open>Expr**\<close>) holding a \<^verbatim>\<open>Var\<close> named \<open>var\<close>;
  \<open>p\<close> is the slot \<^verbatim>\<open>expr\<close>.
\<close>

fun find_substitutions :: "ptr \<Rightarrow> Expr \<Rightarrow> string \<Rightarrow> error + ptr list" where
  "find_substitutions p (Var l n) var = Inr (if n = var then [p] else [])"
| "find_substitutions p (Apply l f a) var =
     (case find_substitutions (p @ [fn_slot]) f var of
        Inl e \<Rightarrow> Inl e
      | Inr ret \<Rightarrow>
          (case find_substitutions (p @ [arg_slot]) a var of
             Inl e \<Rightarrow> Inl e
           | Inr tmp \<Rightarrow> Inr (ret @ tmp)))"
| "find_substitutions p (Lambda l al x b) var =
     (if x \<noteq> var then find_substitutions (p @ [body_slot]) b var else Inr [])"
| "find_substitutions p (Let l n v) var = Inl Abort"

text \<open>
  Running \<open>g\<close> on the node a pointer leads to, the rest of the tree staying as it is.
  The last equation is for a pointer that leads nowhere; the pointers used below come
  from a traversal of the same tree.
\<close>

fun update_at :: "ptr \<Rightarrow> (Expr \<Rightarrow> error + Expr) \<Rightarrow> Expr \<Rightarrow> error + Expr" where
  "update_at [] g e = g e"
| "update_at (fn_slot # p) g (Apply l f a) =
     (case update_at p g f of Inl e \<Rightarrow> Inl e | Inr f' \<Rightarrow> Inr (Apply l f' a))"
| "update_at (arg_slot # p) g (Apply l f a) =
     (case update_at p g a of Inl e \<Rightarrow> Inl e | Inr a' \<Rightarrow> Inr (Apply l f a'))"
| "update_at (body_slot # p) g (Lambda l al x b) =
     (case update_at p g b of Inl e \<Rightarrow> Inl e | Inr b' \<Rightarrow> Inr (Lambda l al x b'))"
| "update_at p g e = Inr e"

text \<open>\<^verbatim>\<open>*v = value->clone()\<close>\<close>

fun assign_slot :: "ptr \<Rightarrow> Expr \<Rightarrow> Expr \<Rightarrow> Expr" where
  "assign_slot [] new e = new"
| "assign_slot (fn_slot # p) new (Apply l f a) = Apply l (assign_slot p new f) a"
| "assign_slot (arg_slot # p) new (Apply l f a) = Apply l f (assign_slot p new a)"
| "assign_slot (body_slot # p) new (Lambda l al x b) = Lambda l al x (assign_slot p new b)"
| "assign_slot p new e = e"

text \<open>\<^verbatim>\<open>substitute\<close>: the slots are positions below \<^verbatim>\<open>expr\<close>, which is returned.\<close>

fun substitute :: "Expr \<Rightarrow> ptr list \<Rightarrow> Expr \<Rightarrow> Expr" where
  "substitute expr [] val = expr"
| "substitute expr (v # vs) val = substitute (assign_slot v (clone val) expr) vs val"

fun alpha_conversion :: "Expr \<Rightarrow> string \<Rightarrow> string \<Rightarrow> error + Expr" where
  "alpha_conversion (Var l n) name fresh =
     Inr (if n = name then Var l fresh else Var l n)"
| "alpha_conversion (Apply l f a) name fresh =
     (case alpha_conversion f name fresh of
        Inl e \<Rightarrow> Inl e
      | Inr f' \<Rightarrow>
          (case alpha_conversion a name fresh of
             Inl e \<Rightarrow> Inl e
           | Inr a' \<Rightarrow> Inr (Apply l f' a')))"
| "alpha_conversion (Lambda l al x b) name fresh =
     (if x = fresh then
        (let fresher = fresh_name fresh in
         case alpha_conversion b fresh fresher of
           Inl e \<Rightarrow> Inl e
         | Inr b' \<Rightarrow> Inr (Lambda l al fresher b'))
      else
        (case alpha_conversion b name fresh of
           Inl e \<Rightarrow> Inl e
         | Inr b' \<Rightarrow> Inr (Lambda l al (if x = name then fresh else x) b')))"
| "alpha_conversion (Let l n v) name fresh = Inl Abort"

text \<open>
  The \<^verbatim>\<open>for(auto v : free)\<close> loop of \<^verbatim>\<open>beta_reduction\<close>, over the names \<^verbatim>\<open>v->name\<close> in
  iteration order. \<open>bound\<close> is computed once, before the loop; \<^verbatim>\<open>it->second\<close> is a node
  of \<open>func\<close>, converted in place.
\<close>

fun rename_conflicts ::
  "int \<Rightarrow> (string \<rightharpoonup> ptr) \<Rightarrow> string list \<Rightarrow> int \<Rightarrow> Expr \<Rightarrow> error + (int \<times> Expr \<times> event list)" where
  "rename_conflicts print_flags bound [] step func = Inr (step, func, [])"
| "rename_conflicts print_flags bound (f # vs) step func =
     (case bound f of
        None \<Rightarrow> rename_conflicts print_flags bound vs step func
      | Some lam \<Rightarrow>
          (case update_at lam (\<lambda>e. alpha_conversion e f (fresh_name f)) func of
             Inl e \<Rightarrow> Inl e
           | Inr func' \<Rightarrow>
               (case rename_conflicts print_flags bound vs (step + 1) func' of
                  Inl e \<Rightarrow> Inl e
                | Inr (step', func'', evs) \<Rightarrow>
                    Inr (step', func'',
                         print_trace print_flags (AlphaCon step f (fresh_name f)) @ evs))))"

text \<open>
  The branch of \<^verbatim>\<open>beta_reduction\<close> taken when \<^verbatim>\<open>app->fn\<close> is a \<^verbatim>\<open>Lambda\<close>. The result is
  \<^verbatim>\<open>ret->body\<close>, which also replaces the application in \<^verbatim>\<open>*parent\<close>.
\<close>

definition reduce_redex ::
  "layout \<Rightarrow> int \<Rightarrow> int \<Rightarrow> Expr \<Rightarrow> Expr \<Rightarrow> error + (int \<times> Expr \<times> event list)" where
  "reduce_redex addr print_flags step func arg =
     (case find_free_variables arg of
        Inl e \<Rightarrow> Inl e
      | Inr free \<Rightarrow>
     (case find_bound_variables func of
        Inl e \<Rightarrow> Inl e
      | Inr bound \<Rightarrow>
     (case rename_conflicts print_flags bound (map snd (iteration_order addr step free)) step func of
        Inl e \<Rightarrow> Inl e
      | Inr (step', func', evs) \<Rightarrow>
     (case find_substitutions [body_slot] (Lambda_body func') (Lambda_arg func') of
        Inl e \<Rightarrow> Inl e
      | Inr substs \<Rightarrow>
          (let ret = substitute func' substs arg in
           Inr (step' + 1, Lambda_body ret,
                evs @ print_trace print_flags (BetaRed step' (Lambda_arg func') arg)))))))"

text \<open>
  \<^verbatim>\<open>beta_reduction(step, print_flags, whole, app, parent)\<close>; \<^verbatim>\<open>app\<close> is an \<^verbatim>\<open>Apply*\<close>.
  \<open>None\<close> is \<^verbatim>\<open>nullptr\<close>: nothing was reduced, nothing printed and \<open>step\<close> is as it was.
  Otherwise the result is the node that now stands where \<^verbatim>\<open>app\<close> stood.
\<close>

fun beta_reduction ::
  "layout \<Rightarrow> int \<Rightarrow> int \<Rightarrow> Expr \<Rightarrow> error + (int \<times> Expr \<times> event list) option" where
  "beta_reduction addr print_flags step (Apply loc (Lambda l al x b) arg) =
     (case reduce_redex addr print_flags step (Lambda l al x b) arg of
        Inl e \<Rightarrow> Inl e
      | Inr r \<Rightarrow> Inr (Some r))"
| "beta_reduction addr print_flags step (Apply loc (Apply l f a) arg) =
     (case beta_reduction addr print_flags step (Apply l f a) of
        Inl e \<Rightarrow> Inl e
      | Inr None \<Rightarrow> Inr None
      | Inr (Some (step', red, evs)) \<Rightarrow> Inr (Some (step', Apply loc red arg, evs)))"
| "beta_reduction addr print_flags step app = Inr None"

fun eval :: "layout \<Rightarrow> int \<Rightarrow> int \<Rightarrow> Expr \<Rightarrow> error + (int \<times> Expr \<times> event list) option" where
  "eval addr print_flags step (Apply l f a) = beta_reduction addr print_flags step (Apply l f a)"
| "eval addr print_flags step (Lambda l al x b) =
     (case eval addr print_flags step b of
        Inl e \<Rightarrow> Inl e
      | Inr None \<Rightarrow> Inr None
      | Inr (Some (step', body, evs)) \<Rightarrow> Inr (Some (step', Lambda l al x body, evs)))"
| "eval addr print_flags step e = Inr None"

text \<open>The single-pass \<^verbatim>\<open>replace_vars\<close> of eval.cpp; \<open>p\<close> is the pointer \<^verbatim>\<open>expr\<close>.\<close>

fun replace_vars :: "Context \<Rightarrow> var_ptr list \<Rightarrow> ptr \<Rightarrow> Expr \<Rightarrow> error + Expr" where
  "replace_vars ctx free_vars p (Var l n) =
     Inr (if (p, n) \<in> set free_vars
          then (case vars ctx n of Some d \<Rightarrow> clone d | None \<Rightarrow> clone (Var l n))
          else clone (Var l n))"
| "replace_vars ctx free_vars p (Apply l f a) =
     (case replace_vars ctx free_vars (p @ [fn_slot]) f of
        Inl e \<Rightarrow> Inl e
      | Inr f' \<Rightarrow>
          (case replace_vars ctx free_vars (p @ [arg_slot]) a of
             Inl e \<Rightarrow> Inl e
           | Inr a' \<Rightarrow> Inr (Apply l f' a')))"
| "replace_vars ctx free_vars p (Lambda l al x b) =
     (case replace_vars ctx free_vars (p @ [body_slot]) b of
        Inl e \<Rightarrow> Inl e
      | Inr b' \<Rightarrow> Inr (Lambda l al x b'))"
| "replace_vars ctx free_vars p (Let l n v) = Inl Abort"

text \<open>
  The \<^verbatim>\<open>while(copy)\<close> loop of \<^verbatim>\<open>evaluate\<close>. It ends when \<^verbatim>\<open>eval\<close> returns \<^verbatim>\<open>nullptr\<close> and
  need not end; \<open>None\<close> is the run that never leaves the loop.
\<close>

partial_function (option) eval_loop ::
  "layout \<Rightarrow> int \<Rightarrow> int \<Rightarrow> Expr \<Rightarrow> event list \<Rightarrow> (error + (Expr \<times> event list)) option" where
  [code]: "eval_loop addr print_flags step copy tr =
     (case eval addr print_flags step copy of
        Inl e \<Rightarrow> Some (Inl e)
      | Inr None \<Rightarrow> Some (Inr (copy, tr))
      | Inr (Some (step', next, evs)) \<Rightarrow> eval_loop addr print_flags step' next (tr @ evs))"

text \<open>
  \<^verbatim>\<open>evaluate(ctx, expr, print_flags)\<close>: the context after the call, the returned term
  and the lines printed.
\<close>

definition evaluate ::
  "layout \<Rightarrow> Context \<Rightarrow> Expr \<Rightarrow> int \<Rightarrow> (error + (Context \<times> Expr \<times> event list)) option" where
  "evaluate addr ctx expr print_flags =
     (case expr of
        Let l name val \<Rightarrow>
          (let exists = (vars ctx name \<noteq> None);
               ctx' = ctx\<lparr>vars := (vars ctx)(name \<mapsto> clone val)\<rparr>
           in Some (Inr (ctx', val, print_trace print_flags (Defined name exists))))
      | _ \<Rightarrow>
          (case find_free_variables expr of
             Inl e \<Rightarrow> Some (Inl e)
           | Inr free \<Rightarrow>
               (case replace_vars ctx free [] expr of
                  Inl e \<Rightarrow> Some (Inl e)
                | Inr copy \<Rightarrow>
                    (case eval_loop addr print_flags 1 copy (print_trace print_flags (Start copy)) of
                       None \<Rightarrow> None
                     | Some (Inl e) \<Rightarrow> Some (Inl e)
                     | Some (Inr (res, tr)) \<Rightarrow>
                         Some (Inr (ctx, res, tr @ print_trace print_flags Done))))))"

section \<open>The later revision: util.cpp and the eval.cpp that goes with it\<close>

text \<open>
  The repository holds a second eval.cpp, which takes its helpers from util.cpp. Where
  the two revisions have a function of the same name, the later one carries the suffix
  \<open>_r2\<close> here. \<^verbatim>\<open>find_substitutions\<close>, \<^verbatim>\<open>substitute\<close>, \<^verbatim>\<open>fresh_name\<close> and
  \<^verbatim>\<open>alpha_conversion\<close> are the same text in both.
\<close>

definition INT_MAX :: int where
  "INT_MAX = 2147483647"

text \<open>
  \<^verbatim>\<open>_find_variables<Bound, MaxDepth>(seen, expr, depth = 0)\<close> of util.cpp. The recursive
  calls are written \<^verbatim>\<open>_find_variables<Bound>(...)\<close>, so they run with the default
  \<^verbatim>\<open>MaxDepth = INT_MAX\<close>; those of the \<^verbatim>\<open>Apply\<close> case also leave \<^verbatim>\<open>depth\<close> to its
  default.
\<close>

fun find_variables_free_r2 ::
  "int \<Rightarrow> (string \<rightharpoonup> ptr) \<Rightarrow> ptr \<Rightarrow> Expr \<Rightarrow> int \<Rightarrow> error + var_ptr list" where
  "find_variables_free_r2 MaxDepth seen p (Var l n) depth =
     Inr (if seen n = None then [(p, n)] else [])"
| "find_variables_free_r2 MaxDepth seen p (Apply l f a) depth =
     (case find_variables_free_r2 INT_MAX seen (p @ [fn_slot]) f 0 of
        Inl e \<Rightarrow> Inl e
      | Inr x \<Rightarrow>
          (case find_variables_free_r2 INT_MAX seen (p @ [arg_slot]) a 0 of
             Inl e \<Rightarrow> Inl e
           | Inr y \<Rightarrow> Inr (x @ y)))"
| "find_variables_free_r2 MaxDepth seen p (Lambda l al x b) depth =
     (if depth < MaxDepth
      then find_variables_free_r2 INT_MAX (map_insert seen x p) (p @ [body_slot]) b (1 + depth)
      else Inr [])"
| "find_variables_free_r2 MaxDepth seen p (Let l n v) depth = Inl Abort"

fun find_variables_bound_r2 ::
  "int \<Rightarrow> (string \<rightharpoonup> ptr) \<Rightarrow> ptr \<Rightarrow> Expr \<Rightarrow> int \<Rightarrow> error + (string \<rightharpoonup> ptr)" where
  "find_variables_bound_r2 MaxDepth seen p (Var l n) depth =
     Inr (case seen n of Some lam \<Rightarrow> [n \<mapsto> lam] | None \<Rightarrow> Map.empty)"
| "find_variables_bound_r2 MaxDepth seen p (Apply l f a) depth =
     (case find_variables_bound_r2 INT_MAX seen (p @ [fn_slot]) f 0 of
        Inl e \<Rightarrow> Inl e
      | Inr x \<Rightarrow>
          (case find_variables_bound_r2 INT_MAX seen (p @ [arg_slot]) a 0 of
             Inl e \<Rightarrow> Inl e
           | Inr y \<Rightarrow> Inr (y ++ x)))"
| "find_variables_bound_r2 MaxDepth seen p (Lambda l al x b) depth =
     (if depth < MaxDepth
      then find_variables_bound_r2 INT_MAX (map_insert seen x p) (p @ [body_slot]) b (1 + depth)
      else Inr Map.empty)"
| "find_variables_bound_r2 MaxDepth seen p (Let l n v) depth = Inl Abort"

definition find_free_variables_r2 :: "Expr \<Rightarrow> error + var_ptr list" where
  "find_free_variables_r2 expr = find_variables_free_r2 INT_MAX Map.empty [] expr 0"

definition find_bound_variables_r2 :: "Expr \<Rightarrow> error + (string \<rightharpoonup> ptr)" where
  "find_bound_variables_r2 expr = find_variables_bound_r2 INT_MAX Map.empty [] expr 0"

text \<open>\<^verbatim>\<open>replace_vars_once\<close>: the new term, and whether something was replaced.\<close>

fun replace_vars_once :: "Context \<Rightarrow> var_ptr list \<Rightarrow> ptr \<Rightarrow> Expr \<Rightarrow> error + (Expr \<times> bool)" where
  "replace_vars_once ctx free_vars p (Var l n) =
     Inr (if (p, n) \<in> set free_vars
          then (case vars ctx n of
                  Some d \<Rightarrow> (clone d, True)
                | None \<Rightarrow> (clone (Var l n), False))
          else (clone (Var l n), False))"
| "replace_vars_once ctx free_vars p (Apply l f a) =
     (case replace_vars_once ctx free_vars (p @ [fn_slot]) f of
        Inl e \<Rightarrow> Inl e
      | Inr x \<Rightarrow>
          (case replace_vars_once ctx free_vars (p @ [arg_slot]) a of
             Inl e \<Rightarrow> Inl e
           | Inr y \<Rightarrow> Inr (Apply l (fst x) (fst y), snd x \<or> snd y)))"
| "replace_vars_once ctx free_vars p (Lambda l al x b) =
     (case replace_vars_once ctx free_vars (p @ [body_slot]) b of
        Inl e \<Rightarrow> Inl e
      | Inr body \<Rightarrow> Inr (Lambda l al x (fst body), snd body))"
| "replace_vars_once ctx free_vars p (Let l n v) = Inl Abort"

text \<open>
  The \<^verbatim>\<open>while(true)\<close> of util.cpp's \<^verbatim>\<open>replace_vars(ctx, expr)\<close>, started at
  \<^verbatim>\<open>ret = expr\<close>. \<open>None\<close> is the loop that never returns.
\<close>

partial_function (option) replace_vars_r2 :: "Context \<Rightarrow> Expr \<Rightarrow> (error + Expr) option" where
  [code]: "replace_vars_r2 ctx ret =
     (case find_free_variables_r2 ret of
        Inl e \<Rightarrow> Some (Inl e)
      | Inr free \<Rightarrow>
          (case replace_vars_once ctx free [] ret of
             Inl e \<Rightarrow> Some (Inl e)
           | Inr (next, changed) \<Rightarrow>
               if \<not> changed then Some (Inr next) else replace_vars_r2 ctx next))"

definition reduce_redex_r2 ::
  "layout \<Rightarrow> int \<Rightarrow> int \<Rightarrow> Expr \<Rightarrow> Expr \<Rightarrow> error + (int \<times> Expr \<times> event list)" where
  "reduce_redex_r2 addr print_flags step func arg =
     (case find_free_variables_r2 arg of
        Inl e \<Rightarrow> Inl e
      | Inr free \<Rightarrow>
     (case find_bound_variables_r2 func of
        Inl e \<Rightarrow> Inl e
      | Inr bound \<Rightarrow>
     (case rename_conflicts print_flags bound (map snd (iteration_order addr step free)) step func of
        Inl e \<Rightarrow> Inl e
      | Inr (step', func', evs) \<Rightarrow>
     (case find_substitutions [body_slot] (Lambda_body func') (Lambda_arg func') of
        Inl e \<Rightarrow> Inl e
      | Inr substs \<Rightarrow>
          (let ret = substitute func' substs arg in
           Inr (step' + 1, Lambda_body ret,
                evs @ print_trace print_flags (BetaRed step' (Lambda_arg func') arg)))))))"

text \<open>
  The later \<^verbatim>\<open>beta_reduction\<close> has a third branch, for an \<^verbatim>\<open>app->arg\<close> that is an
  \<^verbatim>\<open>Apply\<close>. It hangs on the same \<^verbatim>\<open>else if\<close> chain, so it is reached only when
  \<^verbatim>\<open>app->fn\<close> is neither a \<^verbatim>\<open>Lambda\<close> nor an \<^verbatim>\<open>Apply\<close>.
\<close>

fun beta_reduction_r2 ::
  "layout \<Rightarrow> int \<Rightarrow> int \<Rightarrow> Expr \<Rightarrow> error + (int \<times> Expr \<times> event list) option" where
  "beta_reduction_r2 addr print_flags step (Apply loc (Lambda l al x b) arg) =
     (case reduce_redex_r2 addr print_flags step (Lambda l al x b) arg of
        Inl e \<Rightarrow> Inl e
      | Inr r \<Rightarrow> Inr (Some r))"
| "beta_reduction_r2 addr print_flags step (Apply loc (Apply l f a) arg) =
     (case beta_reduction_r2 addr print_flags step (Apply l f a) of
        Inl e \<Rightarrow> Inl e
      | Inr None \<Rightarrow> Inr None
      | Inr (Some (step', red, evs)) \<Rightarrow> Inr (Some (step', Apply loc red arg, evs)))"
| "beta_reduction_r2 addr print_flags step (Apply loc fn (Apply l f a)) =
     (case beta_reduction_r2 addr print_flags step (Apply l f a) of
        Inl e \<Rightarrow> Inl e
      | Inr None \<Rightarrow> Inr None
      | Inr (Some (step', red, evs)) \<Rightarrow> Inr (Some (step', Apply loc fn red, evs)))"
| "beta_reduction_r2 addr print_flags step app = Inr None"

fun eval_r2 :: "layout \<Rightarrow> int \<Rightarrow> int \<Rightarrow> Expr \<Rightarrow> error + (int \<times> Expr \<times> event list) option" where
  "eval_r2 addr print_flags step (Apply l f a) = beta_reduction_r2 addr print_flags step (Apply l f a)"
| "eval_r2 addr print_flags step (Lambda l al x b) =
     (case eval_r2 addr print_flags step b of
        Inl e \<Rightarrow> Inl e
      | Inr None \<Rightarrow> Inr None
      | Inr (Some (step', body, evs)) \<Rightarrow> Inr (Some (step', Lambda l al x body, evs)))"
| "eval_r2 addr print_flags step e = Inr None"

partial_function (option) eval_loop_r2 ::
  "layout \<Rightarrow> int \<Rightarrow> int \<Rightarrow> Expr \<Rightarrow> event list \<Rightarrow> (error + (Expr \<times> event list)) option" where
  [code]: "eval_loop_r2 addr print_flags step copy tr =
     (case eval_r2 addr print_flags step copy of
        Inl e \<Rightarrow> Some (Inl e)
      | Inr None \<Rightarrow> Some (Inr (copy, tr))
      | Inr (Some (step', next, evs)) \<Rightarrow> eval_loop_r2 addr print_flags step' next (tr @ evs))"

definition evaluate_r2 ::
  "layout \<Rightarrow> Context \<Rightarrow> Expr \<Rightarrow> int \<Rightarrow> (error + (Context \<times> Expr \<times> event list)) option" where
  "evaluate_r2 addr ctx expr print_flags =
     (case expr of
        Let l name val \<Rightarrow>
          (let exists = (vars ctx name \<noteq> None);
               ctx' = ctx\<lparr>vars := (vars ctx)(name \<mapsto> clone val)\<rparr>
           in Some (Inr (ctx', val, print_trace print_flags (Defined name exists))))
      | _ \<Rightarrow>
          (case replace_vars_r2 ctx expr of
             None \<Rightarrow> None
           | Some (Inl e) \<Rightarrow> Some (Inl e)
           | Some (Inr copy) \<Rightarrow>
               (case eval_loop_r2 addr print_flags 1 copy (print_trace print_flags (Start copy)) of
                  None \<Rightarrow> None
                | Some (Inl e) \<Rightarrow> Some (Inl e)
                | Some (Inr (res, tr)) \<Rightarrow>
                    Some (Inr (ctx, res, tr @ print_trace print_flags Done)))))"

section \<open>The \<open>\<alpha>\<close>-equivalence check (util.cpp)\<close>

record CheckState =
  var_depths :: "string \<rightharpoonup> int"
  bindings :: "string \<rightharpoonup> ptr"

definition expr_type :: "Expr \<Rightarrow> int" where
  "expr_type e = (case e of Var _ _ \<Rightarrow> 1 | Apply _ _ _ \<Rightarrow> 2 | Lambda _ _ _ _ \<Rightarrow> 3 | Let _ _ _ \<Rightarrow> 4)"

text \<open>
  The five-argument \<^verbatim>\<open>alpha_equivalent\<close>; \<open>pa\<close> and \<open>pb\<close> are the pointers \<^verbatim>\<open>a\<close> and
  \<^verbatim>\<open>b\<close>, which the \<^verbatim>\<open>Lambda\<close> case stores in \<^verbatim>\<open>bindings\<close>.
\<close>

fun alpha_equivalent ::
  "ptr \<Rightarrow> Expr \<Rightarrow> ptr \<Rightarrow> Expr \<Rightarrow> int \<Rightarrow> CheckState \<Rightarrow> CheckState \<Rightarrow> error + bool" where
  "alpha_equivalent pa a pb b cur_depth sta stb =
     (if expr_type a \<noteq> expr_type b then Inr False
      else
     (case find_variables_free_r2 1 (bindings sta) pa a 0 of
        Inl e \<Rightarrow> Inl e
      | Inr free_a \<Rightarrow>
     (case find_variables_free_r2 1 (bindings stb) pb b 0 of
        Inl e \<Rightarrow> Inl e
      | Inr free_b \<Rightarrow>
     (if set (map snd free_a) \<noteq> set (map snd free_b) then Inr False
      else
     (case (a, b) of
        (Var l1 n1, Var l2 n2) \<Rightarrow>
          (case (var_depths sta n1, var_depths stb n2) of
             (Some ia, Some ib) \<Rightarrow> Inr (ia = ib)
           | _ \<Rightarrow> Inr False)
      | (Apply l1 f1 a1, Apply l2 f2 a2) \<Rightarrow>
          (case alpha_equivalent (pa @ [fn_slot]) f1 (pb @ [fn_slot]) f2 cur_depth sta stb of
             Inl e \<Rightarrow> Inl e
           | Inr False \<Rightarrow> Inr False
           | Inr True \<Rightarrow>
               alpha_equivalent (pa @ [arg_slot]) a1 (pb @ [arg_slot]) a2 cur_depth sta stb)
      | (Lambda l1 al1 x1 b1, Lambda l2 al2 x2 b2) \<Rightarrow>
          (let sta1 = sta\<lparr>var_depths := (var_depths sta)(x1 \<mapsto> cur_depth),
                           bindings := (bindings sta)(x1 \<mapsto> pa)\<rparr>;
               stb1 = stb\<lparr>var_depths := (var_depths stb)(x2 \<mapsto> cur_depth),
                           bindings := (bindings stb)(x2 \<mapsto> pb)\<rparr>
           in alpha_equivalent (pa @ [body_slot]) b1 (pb @ [body_slot]) b2 (cur_depth + 1) sta1 stb1)
      | _ \<Rightarrow> Inl Abort)))))"

text \<open>The call \<^verbatim>\<open>alpha_equivalent(a, bb, 0, { }, { })\<close>.\<close>

definition alpha_equivalent_top :: "Expr \<Rightarrow> Expr \<Rightarrow> error + bool" where
  "alpha_equivalent_top a b =
     alpha_equivalent [] a [] b 0
       \<lparr>var_depths = Map.empty, bindings = Map.empty\<rparr>
       \<lparr>var_depths = Map.empty, bindings = Map.empty\<rparr>"

section \<open>Notions used in the statements\<close>

text \<open>Three layouts: two with all nodes at one address, so that iteration follows the
  traversal (\<^verbatim>\<open>fn\<close> before \<^verbatim>\<open>arg\<close>); and one with the nodes below the \<^verbatim>\<open>fn\<close> slot of the
  argument at the higher addresses.\<close>

definition traversal_layout :: layout where
  "traversal_layout step p = 0"


definition fn_high_layout :: layout where
  "fn_high_layout step p = (case p of fn_slot # _ \<Rightarrow> 1 | _ \<Rightarrow> 0)"

text \<open>A term built from \<^verbatim>\<open>Var\<close>, \<^verbatim>\<open>Apply\<close> and \<^verbatim>\<open>Lambda\<close> only, as the parser builds below
  the top level.\<close>

fun let_free :: "Expr \<Rightarrow> bool" where
  "let_free (Var l n) = True"
| "let_free (Apply l f a) = (let_free f \<and> let_free a)"
| "let_free (Lambda l al x b) = let_free b"
| "let_free (Let l n v) = False"

text \<open>A \<open>\<beta>\<close>-redex anywhere in the term.\<close>

fun has_redex :: "Expr \<Rightarrow> bool" where
  "has_redex (Var l n) = False"
| "has_redex (Apply l f a) = (expr_type f = 3 \<or> has_redex f \<or> has_redex a)"
| "has_redex (Lambda l al x b) = has_redex b"
| "has_redex (Let l n v) = has_redex v"

text \<open>An application whose head, reached through the \<^verbatim>\<open>fn\<close> fields, is not a \<^verbatim>\<open>Lambda\<close>;
  and head normal form: below the leading binders the term is a variable or such an
  application. Arguments are not looked at.\<close>

fun stuck :: "Expr \<Rightarrow> bool" where
  "stuck (Apply loc (Lambda l al x b) arg) = False"
| "stuck (Apply loc (Apply l f a) arg) = stuck (Apply l f a)"
| "stuck e = True"

fun head_normal :: "Expr \<Rightarrow> bool" where
  "head_normal (Lambda l al x b) = head_normal b"
| "head_normal e = stuck e"

text \<open>The names of the free occurrences of variables, left to right, where the names in
  \<open>S\<close> count as bound from outside.\<close>

fun free_occ :: "string set \<Rightarrow> Expr \<Rightarrow> string list" where
  "free_occ S (Var l n) = (if n \<in> S then [] else [n])"
| "free_occ S (Apply l f a) = free_occ S f @ free_occ S a"
| "free_occ S (Lambda l al x b) = free_occ (insert x S) b"
| "free_occ S (Let l n v) = []"

text \<open>The number of free occurrences of \<open>x\<close>.\<close>

definition free_count :: "string \<Rightarrow> Expr \<Rightarrow> nat" where
  "free_count x e = length (filter (\<lambda>n. n = x) (free_occ {} e))"







text \<open>The greatest number of binders on a path from the root.\<close>

fun binder_depth :: "Expr \<Rightarrow> nat" where
  "binder_depth (Var l n) = 0"
| "binder_depth (Apply l f a) = max (binder_depth f) (binder_depth a)"
| "binder_depth (Lambda l al x b) = Suc (binder_depth b)"
| "binder_depth (Let l n v) = 0"

text \<open>The parameter of \<^verbatim>\<open>\\x -> x\<close> after \<open>k\<close> conversions of \<open>x\<close> to \<open>x'\<close>, and the lines
  these conversions print.\<close>

definition binder_after :: "string \<Rightarrow> nat \<Rightarrow> string" where
  "binder_after x k =
     (if k = 0 then x else if k = 1 then fresh_name x else fresh_name (fresh_name x))"

definition alpha_lines :: "int \<Rightarrow> int \<Rightarrow> string \<Rightarrow> nat \<Rightarrow> event list" where
  "alpha_lines print_flags step x k =
     concat (map (\<lambda>i. print_trace print_flags (AlphaCon (step + int i) x (fresh_name x))) [0..<k])"

text \<open>Replacing by name what the single pass replaces by pointer.\<close>

fun inline_names :: "Context \<Rightarrow> string set \<Rightarrow> Expr \<Rightarrow> Expr" where
  "inline_names ctx S (Var l n) =
     (if n \<in> S then Var l n else (case vars ctx n of Some d \<Rightarrow> d | None \<Rightarrow> Var l n))"
| "inline_names ctx S (Apply l f a) = Apply l (inline_names ctx S f) (inline_names ctx S a)"
| "inline_names ctx S (Lambda l al x b) = Lambda l al x (inline_names ctx (insert x S) b)"
| "inline_names ctx S (Let l n v) = Let l n v"

section \<open>Basic facts\<close>

declare alpha_equivalent.simps [simp del]

lemmas eval_defs =
  evaluate_def find_free_variables_def find_bound_variables_def reduce_redex_def
  iteration_order_def map_insert_def fresh_name_def

lemma clone_id [simp]: "clone e = e"
  by (induction e) simp_all

section \<open>Claims about \<^verbatim>\<open>evaluate\<close> on a \<^verbatim>\<open>Let\<close> and on the context\<close>

text \<open>
  Claim C10. For a term \<^verbatim>\<open>let n = v\<close>, \<^verbatim>\<open>evaluate\<close> returns at once: the context now maps
  \<open>n\<close> to a copy of \<open>v\<close> as it was given (no redex of \<open>v\<close> is reduced) and every other
  definition is what it was, the returned term is \<open>v\<close>, and the only line printed is the
  one that announces the definition, so no \<open>\<alpha>\<close>- or \<open>\<beta>\<close>-step is made.
\<close>

theorem evaluate_let:
  "evaluate addr ctx (Let l n v) print_flags =
     Some (Inr (ctx\<lparr>vars := (vars ctx)(n \<mapsto> v)\<rparr>, v,
                print_trace print_flags (Defined n (vars ctx n \<noteq> None))))"
  by (simp add: evaluate_def)



section \<open>Claims that the code does not meet\<close>

text \<open>
  Claim C1. The claim is that \<^verbatim>\<open>(\\x -> \\y -> x) y\<close> evaluates to \<^verbatim>\<open>\\y' -> y\<close>. In the code
  the inner binder \<open>y\<close> has no occurrence in its body, so \<^verbatim>\<open>find_bound_variables\<close> does
  not report it, no \<open>\<alpha>\<close>-conversion is made, and the free \<open>y\<close> of the argument is
  captured: the result is \<^verbatim>\<open>\\y -> y\<close> after a single \<open>\<beta>\<close>-step, for every layout.
\<close>

theorem evaluate_captures_free_variable:
  "evaluate addr \<lparr>flags = fl, vars = Map.empty\<rparr>
     (Apply l (Lambda l1 l2 ''x'' (Lambda l3 l4 ''y'' (Var l5 ''x''))) (Var l6 ''y'')) print_flags
   = Some (Inr (\<lparr>flags = fl, vars = Map.empty\<rparr>,
        Lambda l3 l4 ''y'' (Var l6 ''y''),
        print_trace print_flags
          (Start (Apply l (Lambda l1 l2 ''x'' (Lambda l3 l4 ''y'' (Var l5 ''x''))) (Var l6 ''y'')))
        @ print_trace print_flags (BetaRed 1 ''x'' (Var l6 ''y''))
        @ print_trace print_flags Done))"
  by (simp add: eval_defs eval_loop.simps)

text \<open>
  Claim C3. The claim is that the check is reflexive, also on a single free variable.
  In the code the \<^verbatim>\<open>Var\<close> case answers \<^verbatim>\<open>true\<close> only when both names are found in
  \<^verbatim>\<open>var_depths\<close>; a free variable is in neither, so it is not equivalent to itself.
\<close>

theorem free_variable_not_equivalent_to_itself:
  "alpha_equivalent_top (Var l n) (Var l n) = Inr False"
  by (simp add: alpha_equivalent_top_def alpha_equivalent.simps [of _ "Var l n"] expr_type_def)

text \<open>
  The other two parts of the claim hold of the code: the check is symmetric, and
  transitive, for all scopes and also where a traversal aborts.
\<close>

lemma error_unique: "(e :: error) = e'"
  by (cases e; cases e') simp

lemma alpha_equivalent_types: "expr_type a \<noteq> expr_type b \<Longrightarrow> alpha_equivalent pa a pb b d sta stb = Inr False"
  by (subst alpha_equivalent.simps) simp

lemma alpha_equivalent_Var:
  "alpha_equivalent pa (Var l n) pb (Var l' n') d sta stb =
     (case find_variables_free_r2 1 (bindings sta) pa (Var l n) 0 of
        Inl e \<Rightarrow> Inl e
      | Inr free_a \<Rightarrow>
     (case find_variables_free_r2 1 (bindings stb) pb (Var l' n') 0 of
        Inl e \<Rightarrow> Inl e
      | Inr free_b \<Rightarrow>
     (if set (map snd free_a) \<noteq> set (map snd free_b) then Inr False
      else (case (var_depths sta n, var_depths stb n') of
             (Some ia, Some ib) \<Rightarrow> Inr (ia = ib)
           | _ \<Rightarrow> Inr False))))"
  by (subst alpha_equivalent.simps) (simp add: expr_type_def del: find_variables_free_r2.simps cong: sum.case_cong if_cong)

lemma alpha_equivalent_Apply:
  "alpha_equivalent pa (Apply l f x) pb (Apply l' f' x') d sta stb =
     (case find_variables_free_r2 1 (bindings sta) pa (Apply l f x) 0 of
        Inl e \<Rightarrow> Inl e
      | Inr free_a \<Rightarrow>
     (case find_variables_free_r2 1 (bindings stb) pb (Apply l' f' x') 0 of
        Inl e \<Rightarrow> Inl e
      | Inr free_b \<Rightarrow>
     (if set (map snd free_a) \<noteq> set (map snd free_b) then Inr False
      else (case alpha_equivalent (pa @ [fn_slot]) f (pb @ [fn_slot]) f' d sta stb of
              Inl e \<Rightarrow> Inl e
            | Inr False \<Rightarrow> Inr False
            | Inr True \<Rightarrow> alpha_equivalent (pa @ [arg_slot]) x (pb @ [arg_slot]) x' d sta stb))))"
  by (subst alpha_equivalent.simps) (simp add: expr_type_def del: find_variables_free_r2.simps cong: sum.case_cong if_cong)

lemma alpha_equivalent_Lambda:
  "alpha_equivalent pa (Lambda l al x b) pb (Lambda l' al' x' b') d sta stb =
     (case find_variables_free_r2 1 (bindings sta) pa (Lambda l al x b) 0 of
        Inl e \<Rightarrow> Inl e
      | Inr free_a \<Rightarrow>
     (case find_variables_free_r2 1 (bindings stb) pb (Lambda l' al' x' b') 0 of
        Inl e \<Rightarrow> Inl e
      | Inr free_b \<Rightarrow>
     (if set (map snd free_a) \<noteq> set (map snd free_b) then Inr False
      else alpha_equivalent (pa @ [body_slot]) b (pb @ [body_slot]) b' (d + 1)
             (sta\<lparr>var_depths := (var_depths sta)(x \<mapsto> d), bindings := (bindings sta)(x \<mapsto> pa)\<rparr>)
             (stb\<lparr>var_depths := (var_depths stb)(x' \<mapsto> d), bindings := (bindings stb)(x' \<mapsto> pb)\<rparr>))))"
  by (subst alpha_equivalent.simps) (simp add: expr_type_def Let_def del: find_variables_free_r2.simps cong: sum.case_cong if_cong)

lemma alpha_equivalent_Let:
  "alpha_equivalent pa (Let l n v) pb (Let l' n' v') d sta stb = Inl Abort"
  by (subst alpha_equivalent.simps) (simp add: expr_type_def)

lemma alpha_equivalent_sym:
  "alpha_equivalent pa a pb b d sta stb = alpha_equivalent pb b pa a d stb sta"
proof (induction a arbitrary: pa pb b d sta stb)
  case (Var l n)
  show ?case
  proof (cases b)
    case (Var l' n')
    show ?thesis
      unfolding Var alpha_equivalent_Var
      by (auto split: sum.splits option.splits intro: error_unique)
  qed (simp_all add: alpha_equivalent_types expr_type_def)
next
  case (Apply l f x)
  show ?case
  proof (cases b)
    case (Apply l' f' x')
    have f: "alpha_equivalent (pa @ [fn_slot]) f (pb @ [fn_slot]) f' d sta stb
        = alpha_equivalent (pb @ [fn_slot]) f' (pa @ [fn_slot]) f d stb sta"
      by (rule Apply.IH)
    have x: "alpha_equivalent (pa @ [arg_slot]) x (pb @ [arg_slot]) x' d sta stb
        = alpha_equivalent (pb @ [arg_slot]) x' (pa @ [arg_slot]) x d stb sta"
      by (rule Apply.IH)
    show ?thesis
      unfolding Apply alpha_equivalent_Apply f x
      by (auto split: sum.splits intro: error_unique)
  qed (simp_all add: alpha_equivalent_types expr_type_def)
next
  case (Lambda l al x body)
  show ?case
  proof (cases b)
    case (Lambda l' al' x' body')
    show ?thesis
      unfolding Lambda alpha_equivalent_Lambda
        Lambda.IH [of "pa @ [body_slot]" "pb @ [body_slot]" body' "d + 1"]
      by (auto split: sum.splits intro: error_unique)
  qed (simp_all add: alpha_equivalent_types expr_type_def)
next
  case (Let l n v)
  show ?case
    by (cases b) (simp_all add: alpha_equivalent_types alpha_equivalent_Let expr_type_def)
qed

lemma alpha_equivalent_trans:
  "alpha_equivalent pa a pb b d sta stb = Inr True \<Longrightarrow>
   alpha_equivalent pb b pc c d stb stc = Inr True \<Longrightarrow>
   alpha_equivalent pa a pc c d sta stc = Inr True"
proof (induction a arbitrary: pa pb pc b c d sta stb stc)
  case (Var l n)
  from Var.prems(1) obtain l' n' where b: "b = Var l' n'"
    by (cases b) (simp_all add: alpha_equivalent_types expr_type_def)
  from Var.prems(2) b obtain l'' n'' where c: "c = Var l'' n''"
    by (cases c) (simp_all add: alpha_equivalent_types expr_type_def)
  from Var.prems show ?case
    unfolding b c alpha_equivalent_Var
    by (auto split: sum.splits option.splits if_splits)
next
  case (Apply l f x)
  from Apply.prems(1) obtain l' f' x' where b: "b = Apply l' f' x'"
    by (cases b) (simp_all add: alpha_equivalent_types expr_type_def)
  from Apply.prems(2) b obtain l'' f'' x'' where c: "c = Apply l'' f'' x''"
    by (cases c) (simp_all add: alpha_equivalent_types expr_type_def)
  from Apply.prems(1) obtain fa fb where
    A: "find_variables_free_r2 1 (bindings sta) pa (Apply l f x) 0 = Inr fa" and
    B: "find_variables_free_r2 1 (bindings stb) pb (Apply l' f' x') 0 = Inr fb" and
    n1: "set (map snd fa) = set (map snd fb)" and
    ab: "alpha_equivalent (pa @ [fn_slot]) f (pb @ [fn_slot]) f' d sta stb = Inr True"
        "alpha_equivalent (pa @ [arg_slot]) x (pb @ [arg_slot]) x' d sta stb = Inr True"
    unfolding b alpha_equivalent_Apply
    by (auto split: sum.splits if_splits bool.splits simp del: find_variables_free_r2.simps)
  from Apply.prems(2) obtain fc where
    C: "find_variables_free_r2 1 (bindings stc) pc (Apply l'' f'' x'') 0 = Inr fc" and
    n2: "set (map snd fb) = set (map snd fc)" and
    bc: "alpha_equivalent (pb @ [fn_slot]) f' (pc @ [fn_slot]) f'' d stb stc = Inr True"
        "alpha_equivalent (pb @ [arg_slot]) x' (pc @ [arg_slot]) x'' d stb stc = Inr True"
    unfolding b c alpha_equivalent_Apply B
    by (auto split: sum.splits if_splits bool.splits simp del: find_variables_free_r2.simps)
  have ac: "alpha_equivalent (pa @ [fn_slot]) f (pc @ [fn_slot]) f'' d sta stc = Inr True"
       "alpha_equivalent (pa @ [arg_slot]) x (pc @ [arg_slot]) x'' d sta stc = Inr True"
    using Apply.IH(1) [OF ab(1) bc(1)] Apply.IH(2) [OF ab(2) bc(2)] by simp_all
  show ?case
    unfolding c alpha_equivalent_Apply A C ac
    using n1 n2 by simp
next
  case (Lambda l al x body)
  from Lambda.prems(1) obtain l' al' x' body' where b: "b = Lambda l' al' x' body'"
    by (cases b) (simp_all add: alpha_equivalent_types expr_type_def)
  from Lambda.prems(2) b obtain l'' al'' x'' body'' where c: "c = Lambda l'' al'' x'' body''"
    by (cases c) (simp_all add: alpha_equivalent_types expr_type_def)
  let ?sa = "sta\<lparr>var_depths := (var_depths sta)(x \<mapsto> d), bindings := (bindings sta)(x \<mapsto> pa)\<rparr>"
  let ?sb = "stb\<lparr>var_depths := (var_depths stb)(x' \<mapsto> d), bindings := (bindings stb)(x' \<mapsto> pb)\<rparr>"
  let ?sc = "stc\<lparr>var_depths := (var_depths stc)(x'' \<mapsto> d), bindings := (bindings stc)(x'' \<mapsto> pc)\<rparr>"
  from Lambda.prems(1) obtain fa fb where
    A: "find_variables_free_r2 1 (bindings sta) pa (Lambda l al x body) 0 = Inr fa" and
    B: "find_variables_free_r2 1 (bindings stb) pb (Lambda l' al' x' body') 0 = Inr fb" and
    n1: "set (map snd fa) = set (map snd fb)" and
    ab: "alpha_equivalent (pa @ [body_slot]) body (pb @ [body_slot]) body' (d + 1) ?sa ?sb = Inr True"
    unfolding b alpha_equivalent_Lambda
    by (auto split: sum.splits if_splits simp del: find_variables_free_r2.simps)
  from Lambda.prems(2) obtain fc where
    C: "find_variables_free_r2 1 (bindings stc) pc (Lambda l'' al'' x'' body'') 0 = Inr fc" and
    n2: "set (map snd fb) = set (map snd fc)" and
    bc: "alpha_equivalent (pb @ [body_slot]) body' (pc @ [body_slot]) body'' (d + 1) ?sb ?sc = Inr True"
    unfolding b c alpha_equivalent_Lambda B
    by (auto split: sum.splits if_splits simp del: find_variables_free_r2.simps)
  have ac: "alpha_equivalent (pa @ [body_slot]) body (pc @ [body_slot]) body'' (d + 1) ?sa ?sc = Inr True"
    using Lambda.IH [OF ab bc] .
  show ?case
    unfolding c alpha_equivalent_Lambda A C ac
    using n1 n2 by simp
next
  case (Let l n v)
  from Let.prems(1) show ?case
    by (cases b) (simp_all add: alpha_equivalent_types alpha_equivalent_Let expr_type_def)
qed

text \<open>
  Claim C4. The claim is that renaming \<open>x\<close> to a fresh \<open>y\<close> in \<^verbatim>\<open>\\x -> B\<close> gives an
  \<open>\<alpha>\<close>-equivalent term, also when \<open>B\<close> has a binder \<open>y\<close>. In the code the inner binder
  \<open>y\<close> is renamed to \<open>y'\<close>, but below it only \<open>y\<close> is renamed and \<open>x\<close> is left alone:
  \<^verbatim>\<open>\\x -> \\y -> x\<close> becomes \<^verbatim>\<open>\\y -> \\y' -> x\<close>, where \<open>x\<close> is free, and the check of util.cpp
  tells the two apart.
\<close>

theorem alpha_conversion_loses_occurrence:
  "alpha_conversion (Lambda l1 l2 ''x'' (Lambda l3 l4 ''y'' (Var l5 ''x''))) ''x'' ''y''
     = Inr (Lambda l1 l2 ''y'' (Lambda l3 l4 (fresh_name ''y'') (Var l5 ''x'')))
   \<and> alpha_equivalent_top (Lambda l1 l2 ''x'' (Lambda l3 l4 ''y'' (Var l5 ''x'')))
        (Lambda l1 l2 ''y'' (Lambda l3 l4 (fresh_name ''y'') (Var l5 ''x''))) = Inr False"
  by (simp add: alpha_equivalent_top_def alpha_equivalent.simps expr_type_def
      map_insert_def INT_MAX_def)

section \<open>Facts: free variables by name\<close>

lemma find_variables_free_occ:
  "find_variables_free seen p e = Inr fs \<Longrightarrow> map snd fs = free_occ (dom seen) e"
proof (induction e arbitrary: seen p fs)
  case (Var l n)
  then show ?case by (auto simp: domIff)
next
  case (Apply l f a)
  then show ?case by (auto split: sum.splits)
next
  case (Lambda l al x b)
  have "dom (map_insert seen x p) = insert x (dom seen)"
    by (auto simp: map_insert_def)
  with Lambda show ?case by simp
next
  case (Let l n v)
  then show ?case by simp
qed

lemma find_variables_free_total:
  "let_free e \<Longrightarrow> \<exists>fs. find_variables_free seen p e = Inr fs"
proof (induction e arbitrary: seen p)
  case (Apply l f a)
  then obtain x y where "find_variables_free seen (p @ [fn_slot]) f = Inr x"
    "find_variables_free seen (p @ [arg_slot]) a = Inr y"
    by (metis let_free.simps(2))
  then show ?case by simp
qed simp_all

lemma find_variables_free_let_free:
  "find_variables_free seen p e = Inr fs \<Longrightarrow> let_free e"
  by (induction e arbitrary: seen p fs) (auto split: sum.splits)

lemma find_free_variables_occ:
  "find_free_variables e = Inr fs \<Longrightarrow> map snd fs = free_occ {} e"
  using find_variables_free_occ [of Map.empty "[]" e fs]
  by (simp add: find_free_variables_def)

lemma replace_vars_unchanged:
  "let_free e \<Longrightarrow> \<forall>v\<in>set fvs. vars ctx (snd v) = None \<Longrightarrow> replace_vars ctx fvs p e = Inr e"
  by (induction e arbitrary: p) (auto split: option.splits)

section \<open>Facts: normal forms of the driver\<close>

lemma beta_reduction_None: "beta_reduction addr pf step e = Inr None \<Longrightarrow> stuck e"
  by (induction addr pf step e rule: beta_reduction.induct)
     (auto split: sum.splits option.splits)

lemma beta_reduction_r2_None: "beta_reduction_r2 addr pf step e = Inr None \<Longrightarrow> stuck e"
  by (induction addr pf step e rule: beta_reduction_r2.induct)
     (auto split: sum.splits option.splits)

lemma eval_None: "eval addr pf step e = Inr None \<Longrightarrow> head_normal e"
  by (induction e arbitrary: step) (auto split: sum.splits option.splits dest: beta_reduction_None)

lemma eval_r2_None: "eval_r2 addr pf step e = Inr None \<Longrightarrow> head_normal e"
  by (induction e arbitrary: step) (auto split: sum.splits option.splits dest: beta_reduction_r2_None)

lemma stuck_beta_reduction: "stuck e \<Longrightarrow> beta_reduction addr pf step e = Inr None"
  by (induction addr pf step e rule: beta_reduction.induct) auto

lemma head_normal_eval: "head_normal e \<Longrightarrow> eval addr pf step e = Inr None"
  by (induction e arbitrary: step) (auto simp: stuck_beta_reduction)

lemma eval_loop_head_normal:
  assumes "eval_loop addr pf step copy tr = Some y"
  shows "\<forall>res tr'. y = Inr (res, tr') \<longrightarrow> head_normal res"
proof (rule eval_loop.raw_induct
    [where P = "\<lambda>_ _ _ _ _ y. \<forall>res tr'. y = Inr (res, tr') \<longrightarrow> head_normal res", OF _ assms])
  fix loop :: "layout \<Rightarrow> int \<Rightarrow> int \<Rightarrow> Expr \<Rightarrow> event list \<Rightarrow> (error + (Expr \<times> event list)) option"
  fix addr pf step copy tr y
  assume IH: "\<And>addr pf step copy tr y. loop addr pf step copy tr = Some y \<Longrightarrow>
      \<forall>res tr'. y = Inr (res, tr') \<longrightarrow> head_normal res"
  assume body: "(case eval addr pf step copy of
        Inl e \<Rightarrow> Some (Inl e)
      | Inr None \<Rightarrow> Some (Inr (copy, tr))
      | Inr (Some (step', next, evs)) \<Rightarrow> loop addr pf step' next (tr @ evs)) = Some y"
  show "\<forall>res tr'. y = Inr (res, tr') \<longrightarrow> head_normal res"
  proof (cases "eval addr pf step copy")
    case (Inl e)
    with body show ?thesis by auto
  next
    case (Inr r)
    show ?thesis
    proof (cases r)
      case None
      with Inr body eval_None [of addr pf step copy] show ?thesis by auto
    next
      case (Some t)
      with Inr body IH show ?thesis by (cases t) auto
    qed
  qed
qed

lemma eval_loop_r2_head_normal:
  assumes "eval_loop_r2 addr pf step copy tr = Some y"
  shows "\<forall>res tr'. y = Inr (res, tr') \<longrightarrow> head_normal res"
proof (rule eval_loop_r2.raw_induct
    [where P = "\<lambda>_ _ _ _ _ y. \<forall>res tr'. y = Inr (res, tr') \<longrightarrow> head_normal res", OF _ assms])
  fix loop :: "layout \<Rightarrow> int \<Rightarrow> int \<Rightarrow> Expr \<Rightarrow> event list \<Rightarrow> (error + (Expr \<times> event list)) option"
  fix addr pf step copy tr y
  assume IH: "\<And>addr pf step copy tr y. loop addr pf step copy tr = Some y \<Longrightarrow>
      \<forall>res tr'. y = Inr (res, tr') \<longrightarrow> head_normal res"
  assume body: "(case eval_r2 addr pf step copy of
        Inl e \<Rightarrow> Some (Inl e)
      | Inr None \<Rightarrow> Some (Inr (copy, tr))
      | Inr (Some (step', next, evs)) \<Rightarrow> loop addr pf step' next (tr @ evs)) = Some y"
  show "\<forall>res tr'. y = Inr (res, tr') \<longrightarrow> head_normal res"
  proof (cases "eval_r2 addr pf step copy")
    case (Inl e)
    with body show ?thesis by auto
  next
    case (Inr r)
    show ?thesis
    proof (cases r)
      case None
      with Inr body eval_r2_None [of addr pf step copy] show ?thesis by auto
    next
      case (Some t)
      with Inr body IH show ?thesis by (cases t) auto
    qed
  qed
qed

section \<open>Facts: the identity applied to a term\<close>

lemma alpha_conversion_identity:
  "alpha_conversion (Lambda l1 l2 (binder_after x j) (Var l3 (binder_after x j))) x (fresh_name x)
   = Inr (Lambda l1 l2 (binder_after x (Suc j)) (Var l3 (binder_after x (Suc j))))"
  by (auto simp: binder_after_def fresh_name_def Let_def)

lemma alpha_lines_Suc:
  "alpha_lines pf step x (Suc k) =
     print_trace pf (AlphaCon step x (fresh_name x)) @ alpha_lines pf (step + 1) x k"
proof -
  have "[0..<Suc k] = 0 # map Suc [0..<k]"
    by (simp add: upt_conv_Cons map_Suc_upt del: upt_Suc)
  then show ?thesis
    by (simp add: alpha_lines_def comp_def add.assoc del: upt_Suc)
qed

lemma rename_conflicts_identity:
  "rename_conflicts pf [x \<mapsto> []] names step (Lambda l1 l2 (binder_after x j) (Var l3 (binder_after x j)))
   = Inr (step + int (length (filter (\<lambda>n. n = x) names)),
          Lambda l1 l2 (binder_after x (j + length (filter (\<lambda>n. n = x) names)))
                       (Var l3 (binder_after x (j + length (filter (\<lambda>n. n = x) names)))),
          alpha_lines pf step x (length (filter (\<lambda>n. n = x) names)))"
proof (induction names arbitrary: step j)
  case Nil
  then show ?case by (simp add: alpha_lines_def)
next
  case (Cons n names)
  show ?case
  proof (cases "n = x")
    case True
    then show ?thesis
      using Cons [of "step + 1" "Suc j"]
      by (simp add: alpha_conversion_identity alpha_lines_Suc add.assoc del: alpha_conversion.simps)
  next
    case False
    then show ?thesis
      using Cons [of step j] by simp
  qed
qed

lemma length_filter_iteration_order:
  "length (filter P (map snd (iteration_order addr step vs))) = length (filter P (map snd vs))"
proof -
  have "mset (map snd (iteration_order addr step vs)) = mset (map snd vs)"
    by (simp add: iteration_order_def)
  then have "mset (filter P (map snd (iteration_order addr step vs))) = mset (filter P (map snd vs))"
    by (simp add: mset_filter)
  then show ?thesis
    by (metis size_mset)
qed

lemma reduce_redex_identity:
  assumes "find_free_variables A = Inr free"
    and k_def: "k = free_count x A"
  shows "reduce_redex addr pf step (Lambda l1 l2 x (Var l3 x)) A =
     Inr (step + int k + 1, A,
          alpha_lines pf step x k @ print_trace pf (BetaRed (step + int k) (binder_after x k) A))"
proof -
  have b: "find_bound_variables (Lambda l1 l2 x (Var l3 x)) = Inr [x \<mapsto> []]"
    by (simp add: find_bound_variables_def map_insert_def)
  have x0: "binder_after x 0 = x"
    by (simp add: binder_after_def)
  have k: "length (filter (\<lambda>n. n = x) (map snd (iteration_order addr step free))) = k"
    unfolding k_def free_count_def find_free_variables_occ [OF assms(1), symmetric]
    by (rule length_filter_iteration_order)
  have r: "rename_conflicts pf [x \<mapsto> []] (map snd (iteration_order addr step free)) step
       (Lambda l1 l2 x (Var l3 x))
     = Inr (step + int k, Lambda l1 l2 (binder_after x k) (Var l3 (binder_after x k)),
          alpha_lines pf step x k)"
    using rename_conflicts_identity [of pf x "map snd (iteration_order addr step free)" step l1 l2 0 l3]
    unfolding k x0 by simp
  show ?thesis
    unfolding reduce_redex_def assms(1) b
    by (simp add: r)
qed

section \<open>Claims about the reduction driver\<close>

text \<open>
  Claim C2, as stated: whenever the driver returns, the returned term has no \<open>\<beta>\<close>-redex
  anywhere. It fails in both revisions on \<^verbatim>\<open>x y ((\\z -> z) w)\<close>: the head \<^verbatim>\<open>x y\<close> is
  stuck, the argument is never visited, and the term comes back as it was.
\<close>

theorem redex_left_in_argument:
  "evaluate traversal_layout \<lparr>flags = 0, vars = Map.empty\<rparr>
     (Apply \<lparr>loc_begin = 0, loc_length = 3\<rparr>
        (Apply \<lparr>loc_begin = 0, loc_length = 1\<rparr>
           (Var \<lparr>loc_begin = 0, loc_length = 1\<rparr> ''x'') (Var \<lparr>loc_begin = 2, loc_length = 1\<rparr> ''y''))
        (Apply \<lparr>loc_begin = 5, loc_length = 7\<rparr>
           (Lambda \<lparr>loc_begin = 5, loc_length = 7\<rparr> \<lparr>loc_begin = 6, loc_length = 1\<rparr> ''z''
              (Var \<lparr>loc_begin = 11, loc_length = 1\<rparr> ''z''))
           (Var \<lparr>loc_begin = 14, loc_length = 1\<rparr> ''w''))) 0
   = Some (Inr (\<lparr>flags = 0, vars = Map.empty\<rparr>,
     (Apply \<lparr>loc_begin = 0, loc_length = 3\<rparr>
        (Apply \<lparr>loc_begin = 0, loc_length = 1\<rparr>
           (Var \<lparr>loc_begin = 0, loc_length = 1\<rparr> ''x'') (Var \<lparr>loc_begin = 2, loc_length = 1\<rparr> ''y''))
        (Apply \<lparr>loc_begin = 5, loc_length = 7\<rparr>
           (Lambda \<lparr>loc_begin = 5, loc_length = 7\<rparr> \<lparr>loc_begin = 6, loc_length = 1\<rparr> ''z''
              (Var \<lparr>loc_begin = 11, loc_length = 1\<rparr> ''z''))
           (Var \<lparr>loc_begin = 14, loc_length = 1\<rparr> ''w''))), []))
   \<and> evaluate_r2 traversal_layout \<lparr>flags = 0, vars = Map.empty\<rparr>
     (Apply \<lparr>loc_begin = 0, loc_length = 3\<rparr>
        (Apply \<lparr>loc_begin = 0, loc_length = 1\<rparr>
           (Var \<lparr>loc_begin = 0, loc_length = 1\<rparr> ''x'') (Var \<lparr>loc_begin = 2, loc_length = 1\<rparr> ''y''))
        (Apply \<lparr>loc_begin = 5, loc_length = 7\<rparr>
           (Lambda \<lparr>loc_begin = 5, loc_length = 7\<rparr> \<lparr>loc_begin = 6, loc_length = 1\<rparr> ''z''
              (Var \<lparr>loc_begin = 11, loc_length = 1\<rparr> ''z''))
           (Var \<lparr>loc_begin = 14, loc_length = 1\<rparr> ''w''))) 0
   = Some (Inr (\<lparr>flags = 0, vars = Map.empty\<rparr>,
     (Apply \<lparr>loc_begin = 0, loc_length = 3\<rparr>
        (Apply \<lparr>loc_begin = 0, loc_length = 1\<rparr>
           (Var \<lparr>loc_begin = 0, loc_length = 1\<rparr> ''x'') (Var \<lparr>loc_begin = 2, loc_length = 1\<rparr> ''y''))
        (Apply \<lparr>loc_begin = 5, loc_length = 7\<rparr>
           (Lambda \<lparr>loc_begin = 5, loc_length = 7\<rparr> \<lparr>loc_begin = 6, loc_length = 1\<rparr> ''z''
              (Var \<lparr>loc_begin = 11, loc_length = 1\<rparr> ''z''))
           (Var \<lparr>loc_begin = 14, loc_length = 1\<rparr> ''w''))), []))
   \<and> has_redex
     (Apply \<lparr>loc_begin = 0, loc_length = 3\<rparr>
        (Apply \<lparr>loc_begin = 0, loc_length = 1\<rparr>
           (Var \<lparr>loc_begin = 0, loc_length = 1\<rparr> ''x'') (Var \<lparr>loc_begin = 2, loc_length = 1\<rparr> ''y''))
        (Apply \<lparr>loc_begin = 5, loc_length = 7\<rparr>
           (Lambda \<lparr>loc_begin = 5, loc_length = 7\<rparr> \<lparr>loc_begin = 6, loc_length = 1\<rparr> ''z''
              (Var \<lparr>loc_begin = 11, loc_length = 1\<rparr> ''z''))
           (Var \<lparr>loc_begin = 14, loc_length = 1\<rparr> ''w'')))"
  by (simp add: eval_defs eval_loop.simps print_trace_def FLAG_TRACE_def expr_type_def
      evaluate_r2_def replace_vars_r2.simps eval_loop_r2.simps find_free_variables_r2_def INT_MAX_def)

text \<open>
  Claim C2, amended: whenever the driver returns on a term that is not a \<^verbatim>\<open>Let\<close>, in
  either revision, the returned term is in head normal form: there is no redex at the
  root, below the leading binders, or along the \<^verbatim>\<open>fn\<close> fields of the application found
  there. Nothing is said about the arguments.
\<close>

theorem evaluate_head_normal:
  assumes "evaluate addr ctx expr print_flags = Some (Inr (ctx', res, tr))
         \<or> evaluate_r2 addr ctx expr print_flags = Some (Inr (ctx', res, tr))"
    and "expr_type expr \<noteq> 4"
  shows "head_normal res"
  using assms
  by (cases expr)
     (auto simp: evaluate_def evaluate_r2_def expr_type_def split: sum.splits option.splits
           dest: eval_loop_head_normal eval_loop_r2_head_normal)

theorem evaluate_head_normal_witness:
  "evaluate traversal_layout \<lparr>flags = 0, vars = Map.empty\<rparr>
     (Lambda \<lparr>loc_begin = 0, loc_length = 17\<rparr> \<lparr>loc_begin = 1, loc_length = 1\<rparr> ''x''
        (Apply \<lparr>loc_begin = 7, loc_length = 7\<rparr>
           (Lambda \<lparr>loc_begin = 7, loc_length = 7\<rparr> \<lparr>loc_begin = 8, loc_length = 1\<rparr> ''y''
              (Var \<lparr>loc_begin = 13, loc_length = 1\<rparr> ''y''))
           (Var \<lparr>loc_begin = 16, loc_length = 1\<rparr> ''x''))) 0
   = Some (Inr (\<lparr>flags = 0, vars = Map.empty\<rparr>,
     (Lambda \<lparr>loc_begin = 0, loc_length = 17\<rparr> \<lparr>loc_begin = 1, loc_length = 1\<rparr> ''x''
        (Var \<lparr>loc_begin = 16, loc_length = 1\<rparr> ''x'')), []))
   \<and> expr_type
     (Lambda \<lparr>loc_begin = 0, loc_length = 17\<rparr> \<lparr>loc_begin = 1, loc_length = 1\<rparr> ''x''
        (Apply \<lparr>loc_begin = 7, loc_length = 7\<rparr>
           (Lambda \<lparr>loc_begin = 7, loc_length = 7\<rparr> \<lparr>loc_begin = 8, loc_length = 1\<rparr> ''y''
              (Var \<lparr>loc_begin = 13, loc_length = 1\<rparr> ''y''))
           (Var \<lparr>loc_begin = 16, loc_length = 1\<rparr> ''x''))) \<noteq> 4
   \<and> head_normal
     (Lambda \<lparr>loc_begin = 0, loc_length = 17\<rparr> \<lparr>loc_begin = 1, loc_length = 1\<rparr> ''x''
        (Var \<lparr>loc_begin = 16, loc_length = 1\<rparr> ''x''))"
proof -
  let ?t = "(Lambda \<lparr>loc_begin = 0, loc_length = 17\<rparr> \<lparr>loc_begin = 1, loc_length = 1\<rparr> ''x''
        (Apply \<lparr>loc_begin = 7, loc_length = 7\<rparr>
           (Lambda \<lparr>loc_begin = 7, loc_length = 7\<rparr> \<lparr>loc_begin = 8, loc_length = 1\<rparr> ''y''
              (Var \<lparr>loc_begin = 13, loc_length = 1\<rparr> ''y''))
           (Var \<lparr>loc_begin = 16, loc_length = 1\<rparr> ''x'')))"
  let ?r = "(Lambda \<lparr>loc_begin = 0, loc_length = 17\<rparr> \<lparr>loc_begin = 1, loc_length = 1\<rparr> ''x''
        (Var \<lparr>loc_begin = 16, loc_length = 1\<rparr> ''x''))"
  let ?ctx = "\<lparr>flags = 0, vars = Map.empty\<rparr>"
  have ev: "evaluate traversal_layout ?ctx ?t 0 = Some (Inr (?ctx, ?r, []))"
    by (simp add: eval_defs eval_loop.simps print_trace_def FLAG_TRACE_def)
  have nl: "expr_type ?t \<noteq> 4"
    by (simp add: expr_type_def)
  have "head_normal ?r"
    using evaluate_head_normal [OF disjI1 [OF ev] nl] .
  with ev nl show ?thesis
    by blast
qed

text \<open>
  Claim C6, as stated: \<^verbatim>\<open>(\\x -> x) A\<close> is evaluated by one \<open>\<beta>\<close>-step and no
  \<open>\<alpha>\<close>-conversion, also when \<open>x\<close> is free in \<open>A\<close>. For \<open>A = x\<close> the parameter \<open>x\<close> is among
  the bound variables of the function and \<open>x\<close> is free in the argument, so the binder is
  first converted to \<open>x'\<close>: the trace has an \<open>\<alpha>\<close>-line before the \<open>\<beta>\<close>-line.
\<close>

theorem identity_alpha_converts: "evaluate traversal_layout \<lparr>flags = 0, vars = Map.empty\<rparr>
      (Apply \<lparr>loc_begin = 0, loc_length = 9\<rparr>
         (Lambda \<lparr>loc_begin = 1, loc_length = 7\<rparr> \<lparr>loc_begin = 2, loc_length = 1\<rparr> ''x''
            (Var \<lparr>loc_begin = 7, loc_length = 1\<rparr> ''x''))
         (Var \<lparr>loc_begin = 10, loc_length = 1\<rparr> ''x'')) 16
   = Some (Inr (\<lparr>flags = 0, vars = Map.empty\<rparr>, Var \<lparr>loc_begin = 10, loc_length = 1\<rparr> ''x'',
       [Start (Apply \<lparr>loc_begin = 0, loc_length = 9\<rparr>
         (Lambda \<lparr>loc_begin = 1, loc_length = 7\<rparr> \<lparr>loc_begin = 2, loc_length = 1\<rparr> ''x''
            (Var \<lparr>loc_begin = 7, loc_length = 1\<rparr> ''x''))
         (Var \<lparr>loc_begin = 10, loc_length = 1\<rparr> ''x'')),
        AlphaCon 1 ''x'' (fresh_name ''x''),
        BetaRed 2 (fresh_name ''x'') (Var \<lparr>loc_begin = 10, loc_length = 1\<rparr> ''x''),
        Done]))"
  by (simp add: eval_defs eval_loop.simps print_trace_def FLAG_TRACE_def)

text \<open>
  Claim C6, amended: let \<open>A\<close> be a term without \<^verbatim>\<open>Let\<close>, in head normal form, none of
  whose free variables is defined in the context. Then \<^verbatim>\<open>evaluate\<close> on \<^verbatim>\<open>(\\x -> x) A\<close>
  returns \<open>A\<close> after exactly one \<open>\<beta>\<close>-step, for every layout. The \<open>\<beta>\<close>-step is preceded by
  one \<open>\<alpha>\<close>-conversion of the binder for each free occurrence of \<open>x\<close> in \<open>A\<close>, hence by
  none when \<open>x\<close> is not free in \<open>A\<close>.
\<close>

theorem evaluate_identity_applied:
  assumes "let_free A"
    and "\<forall>n\<in>set (free_occ {} A). vars ctx n = None"
    and "head_normal A"
  shows "evaluate addr ctx (Apply l (Lambda l1 l2 x (Var l3 x)) A) print_flags =
    Some (Inr (ctx, A,
      print_trace print_flags (Start (Apply l (Lambda l1 l2 x (Var l3 x)) A))
      @ alpha_lines print_flags 1 x (free_count x A)
      @ print_trace print_flags
          (BetaRed (1 + int (free_count x A)) (binder_after x (free_count x A)) A)
      @ print_trace print_flags Done))"
proof -
  define k where "k = free_count x A"
  let ?t = "Apply l (Lambda l1 l2 x (Var l3 x)) A"
  obtain free where free: "find_free_variables A = Inr free"
    unfolding find_free_variables_def
    using find_variables_free_total [OF assms(1)] by blast
  have lf: "let_free ?t"
    using assms(1) by simp
  obtain ft where ft: "find_free_variables ?t = Inr ft"
    unfolding find_free_variables_def
    using find_variables_free_total [OF lf] by blast
  have "map snd ft = free_occ {} A"
    using find_free_variables_occ [OF ft] by simp
  then have "set (map snd ft) = set (free_occ {} A)"
    by simp
  then have "\<forall>v\<in>set ft. vars ctx (snd v) = None"
    using assms(2) by auto
  then have copy: "replace_vars ctx ft [] ?t = Inr ?t"
    using replace_vars_unchanged [OF lf] by blast
  have step1: "eval addr print_flags 1 ?t =
      Inr (Some (1 + int k + 1, A,
        alpha_lines print_flags 1 x k @ print_trace print_flags (BetaRed (1 + int k) (binder_after x k) A)))"
    using reduce_redex_identity [OF free k_def, of addr print_flags 1 l1 l2 l3]
    by simp
  have step2: "eval addr print_flags (1 + int k + 1) A = Inr None"
    using assms(3) by (rule head_normal_eval)
  have loop: "eval_loop addr print_flags 1 ?t (print_trace print_flags (Start ?t)) =
      Some (Inr (A, print_trace print_flags (Start ?t)
        @ alpha_lines print_flags 1 x k
        @ print_trace print_flags (BetaRed (1 + int k) (binder_after x k) A)))"
    apply (subst eval_loop.simps)
    apply (simp only: step1 sum.case option.case prod.case)
    apply (subst eval_loop.simps)
    apply (simp only: step2 sum.case option.case prod.case append_assoc)
    done
  show ?thesis
    unfolding evaluate_def k_def [symmetric]
    by (simp add: ft copy loop del: replace_vars.simps)
qed

theorem evaluate_identity_applied_witness:
  "let_free (Apply \<lparr>loc_begin = 10, loc_length = 1\<rparr> (Var \<lparr>loc_begin = 10, loc_length = 1\<rparr> ''x'')
                  (Var \<lparr>loc_begin = 12, loc_length = 1\<rparr> ''x''))
   \<and> map (vars \<lparr>flags = 0, vars = Map.empty\<rparr>)
        (free_occ {} (Apply \<lparr>loc_begin = 10, loc_length = 1\<rparr> (Var \<lparr>loc_begin = 10, loc_length = 1\<rparr> ''x'')
                  (Var \<lparr>loc_begin = 12, loc_length = 1\<rparr> ''x''))) = [None, None]
   \<and> head_normal (Apply \<lparr>loc_begin = 10, loc_length = 1\<rparr> (Var \<lparr>loc_begin = 10, loc_length = 1\<rparr> ''x'')
                  (Var \<lparr>loc_begin = 12, loc_length = 1\<rparr> ''x''))
   \<and> evaluate traversal_layout \<lparr>flags = 0, vars = Map.empty\<rparr>
      (Apply \<lparr>loc_begin = 0, loc_length = 9\<rparr>
         (Lambda \<lparr>loc_begin = 1, loc_length = 7\<rparr> \<lparr>loc_begin = 2, loc_length = 1\<rparr> ''x''
            (Var \<lparr>loc_begin = 7, loc_length = 1\<rparr> ''x''))
         (Apply \<lparr>loc_begin = 10, loc_length = 1\<rparr> (Var \<lparr>loc_begin = 10, loc_length = 1\<rparr> ''x'')
                  (Var \<lparr>loc_begin = 12, loc_length = 1\<rparr> ''x''))) 16
   = Some (Inr (\<lparr>flags = 0, vars = Map.empty\<rparr>,
       Apply \<lparr>loc_begin = 10, loc_length = 1\<rparr> (Var \<lparr>loc_begin = 10, loc_length = 1\<rparr> ''x'')
                  (Var \<lparr>loc_begin = 12, loc_length = 1\<rparr> ''x''),
       [Start (Apply \<lparr>loc_begin = 0, loc_length = 9\<rparr>
         (Lambda \<lparr>loc_begin = 1, loc_length = 7\<rparr> \<lparr>loc_begin = 2, loc_length = 1\<rparr> ''x''
            (Var \<lparr>loc_begin = 7, loc_length = 1\<rparr> ''x''))
         (Apply \<lparr>loc_begin = 10, loc_length = 1\<rparr> (Var \<lparr>loc_begin = 10, loc_length = 1\<rparr> ''x'')
                  (Var \<lparr>loc_begin = 12, loc_length = 1\<rparr> ''x''))),
        AlphaCon 1 ''x'' (fresh_name ''x''),
        AlphaCon 2 ''x'' (fresh_name ''x''),
        BetaRed 3 (fresh_name (fresh_name ''x''))
           (Apply \<lparr>loc_begin = 10, loc_length = 1\<rparr> (Var \<lparr>loc_begin = 10, loc_length = 1\<rparr> ''x'')
                  (Var \<lparr>loc_begin = 12, loc_length = 1\<rparr> ''x'')),
        Done]))"
proof -
  let ?A = "Apply \<lparr>loc_begin = 10, loc_length = 1\<rparr> (Var \<lparr>loc_begin = 10, loc_length = 1\<rparr> ''x'')
                  (Var \<lparr>loc_begin = 12, loc_length = 1\<rparr> ''x'')"
  let ?ctx = "\<lparr>flags = 0, vars = Map.empty\<rparr>"
  have h1: "let_free ?A" by simp
  have h2: "\<forall>n\<in>set (free_occ {} ?A). vars ?ctx n = None" by simp
  have h3: "head_normal ?A" by simp
  have k: "free_count ''x'' ?A = 2"
    by (simp add: free_count_def)
  have al: "alpha_lines 16 1 ''x'' 2 = [AlphaCon 1 ''x'' (fresh_name ''x''), AlphaCon 2 ''x'' (fresh_name ''x'')]"
    by (simp add: alpha_lines_def print_trace_def FLAG_TRACE_def upt_rec)
  show ?thesis
    using h1 h2 h3 evaluate_identity_applied [OF h1 h2 h3, of traversal_layout
        "\<lparr>loc_begin = 0, loc_length = 9\<rparr>" "\<lparr>loc_begin = 1, loc_length = 7\<rparr>" "\<lparr>loc_begin = 2, loc_length = 1\<rparr>"
        "''x''" "\<lparr>loc_begin = 7, loc_length = 1\<rparr>" 16]
    unfolding k al
    by (simp add: binder_after_def print_trace_def FLAG_TRACE_def)
qed

section \<open>Facts: bound variables\<close>

lemma free_occ_set: "set (free_occ S e) = set (free_occ {} e) - S"
proof (induction e arbitrary: S)
  case (Lambda l al x b)
  have "set (free_occ (insert x S) b) = set (free_occ {} b) - insert x S"
    by (rule Lambda.IH)
  moreover have "set (free_occ {x} b) = set (free_occ {} b) - {x}"
    by (rule Lambda.IH)
  ultimately show ?case by auto
next
  case (Apply l f a)
  have "set (free_occ S f) = set (free_occ {} f) - S"
    and "set (free_occ S a) = set (free_occ {} a) - S"
    by (rule Apply.IH)+
  then show ?case by auto
qed auto

lemma dom_map_insert: "dom (map_insert seen x p) = insert x (dom seen)"
  by (auto simp: map_insert_def)










section \<open>Facts: the two revisions of the variable analysis agree\<close>

lemma find_variables_free_r2_eq:
  "0 \<le> depth \<Longrightarrow> depth + int (binder_depth e) \<le> INT_MAX \<Longrightarrow>
     find_variables_free_r2 INT_MAX seen p e depth = find_variables_free seen p e"
proof (induction e arbitrary: seen p depth)
  case (Apply l f a)
  have "find_variables_free_r2 INT_MAX seen (p @ [fn_slot]) f 0
      = find_variables_free seen (p @ [fn_slot]) f"
    using Apply.IH(1) [of 0] Apply.prems by simp
  moreover have "find_variables_free_r2 INT_MAX seen (p @ [arg_slot]) a 0
      = find_variables_free seen (p @ [arg_slot]) a"
    using Apply.IH(2) [of 0] Apply.prems by simp
  ultimately show ?case by (simp split: sum.splits)
next
  case (Lambda l al x b)
  then show ?case by simp
qed simp_all


lemma find_variables_free_r2_MaxDepth:
  "depth < MaxDepth \<Longrightarrow> depth < INT_MAX \<Longrightarrow>
     find_variables_free_r2 MaxDepth seen p e depth = find_variables_free_r2 INT_MAX seen p e depth"
  by (cases e) simp_all

section \<open>Claims about the bound variables\<close>





section \<open>Facts: inlining by pointer and by name\<close>

lemma prefix_snocD: "prefix (p @ [s]) q \<Longrightarrow> prefix p q"
  by (rule append_prefixD)

lemma find_variables_free_prefix:
  "find_variables_free seen p e = Inr fs \<Longrightarrow> v \<in> set fs \<Longrightarrow> prefix p (fst v)"
proof (induction e arbitrary: seen p fs)
  case (Var l n)
  then show ?case by (auto split: if_splits)
next
  case (Apply l f a)
  from Apply.prems obtain x y where
    x: "find_variables_free seen (p @ [fn_slot]) f = Inr x" and
    y: "find_variables_free seen (p @ [arg_slot]) a = Inr y" and
    fs: "fs = x @ y"
    by (auto split: sum.splits)
  from Apply.prems(2) fs have "v \<in> set x \<or> v \<in> set y" by simp
  then show ?case
  proof
    assume "v \<in> set x"
    then have "prefix (p @ [fn_slot]) (fst v)" by (rule Apply.IH(1) [OF x])
    then show ?thesis by (rule prefix_snocD)
  next
    assume "v \<in> set y"
    then have "prefix (p @ [arg_slot]) (fst v)" by (rule Apply.IH(2) [OF y])
    then show ?thesis by (rule prefix_snocD)
  qed
next
  case (Lambda l al x b)
  from Lambda.prems(1) have "find_variables_free (map_insert seen x p) (p @ [body_slot]) b = Inr fs"
    by simp
  then have "prefix (p @ [body_slot]) (fst v)"
    using Lambda.prems(2) by (rule Lambda.IH)
  then show ?case by (rule prefix_snocD)
next
  case (Let l n v)
  then show ?case by simp
qed


lemma prefix_snoc_unique:
  assumes "prefix (p @ [a]) q" and "prefix (p @ [b]) q"
  shows "a = b"
proof -
  from assms(1) obtain r where "q = (p @ [a]) @ r"
    by (auto simp: prefix_def)
  moreover from assms(2) obtain r' where "q = (p @ [b]) @ r'"
    by (auto simp: prefix_def)
  ultimately have "a # r = b # r'"
    by simp
  then show ?thesis
    by simp
qed


lemma prefix_other_slot:
  assumes "prefix (p @ [a]) q" and "a \<noteq> b"
  shows "\<not> prefix (p @ [b]) q"
proof
  assume "prefix (p @ [b]) q"
  with assms(1) have "a = b" by (rule prefix_snoc_unique)
  with assms(2) show False by simp
qed


lemma replace_vars_by_name:
  assumes "find_variables_free seen p e = Inr fs"
    and "set fr = set fs \<union> R"
    and "\<forall>v\<in>R. \<not> prefix p (fst v)"
  shows "replace_vars ctx fr p e = Inr (inline_names ctx (dom seen) e)
       \<and> replace_vars_once ctx fr p e =
           Inr (inline_names ctx (dom seen) e, \<exists>n\<in>set (free_occ (dom seen) e). vars ctx n \<noteq> None)"
  using assms
proof (induction e arbitrary: seen p fs R)
  case (Var l n)
  have notR: "(p, n) \<notin> R"
    using Var.prems(3) by auto
  from Var.prems(1) have fs: "fs = (if seen n = None then [(p, n)] else [])"
    by simp
  have mem: "(p, n) \<in> set fr \<longleftrightarrow> seen n = None"
    unfolding Var.prems(2) fs using notR by simp
  show ?case
    by (cases "seen n"; cases "vars ctx n") (simp_all add: mem domIff)
next
  case (Apply l f a)
  from Apply.prems(1) obtain x y where
    x: "find_variables_free seen (p @ [fn_slot]) f = Inr x" and
    y: "find_variables_free seen (p @ [arg_slot]) a = Inr y" and
    fs: "fs = x @ y"
    by (auto split: sum.splits)
  have Rp: "\<forall>v\<in>R. \<not> prefix (p @ [s]) (fst v)" for s
  proof
    fix v
    assume "v \<in> R"
    with Apply.prems(3) have "\<not> prefix p (fst v)" by blast
    then show "\<not> prefix (p @ [s]) (fst v)"
      using prefix_snocD [of p s "fst v"] by blast
  qed
  have fx: "set fr = set x \<union> (set y \<union> R)"
    using Apply.prems(2) fs by (simp add: Un_ac)
  have "\<forall>v\<in>set y \<union> R. \<not> prefix (p @ [fn_slot]) (fst v)"
  proof
    fix v
    assume v: "v \<in> set y \<union> R"
    show "\<not> prefix (p @ [fn_slot]) (fst v)"
    proof (cases "v \<in> R")
      case True
      then show ?thesis using Rp by blast
    next
      case False
      with v have "v \<in> set y" by simp
      then have "prefix (p @ [arg_slot]) (fst v)"
        by (rule find_variables_free_prefix [OF y])
      then show ?thesis
        by (rule prefix_other_slot) simp
    qed
  qed
  from Apply.IH(1) [OF x fx this]
  have f: "replace_vars ctx fr (p @ [fn_slot]) f = Inr (inline_names ctx (dom seen) f)"
    "replace_vars_once ctx fr (p @ [fn_slot]) f =
       Inr (inline_names ctx (dom seen) f, \<exists>n\<in>set (free_occ (dom seen) f). vars ctx n \<noteq> None)"
    by simp_all
  have fy: "set fr = set y \<union> (set x \<union> R)"
    using Apply.prems(2) fs by (simp add: Un_ac)
  have "\<forall>v\<in>set x \<union> R. \<not> prefix (p @ [arg_slot]) (fst v)"
  proof
    fix v
    assume v: "v \<in> set x \<union> R"
    show "\<not> prefix (p @ [arg_slot]) (fst v)"
    proof (cases "v \<in> R")
      case True
      then show ?thesis using Rp by blast
    next
      case False
      with v have "v \<in> set x" by simp
      then have "prefix (p @ [fn_slot]) (fst v)"
        by (rule find_variables_free_prefix [OF x])
      then show ?thesis
        by (rule prefix_other_slot) simp
    qed
  qed
  from Apply.IH(2) [OF y fy this]
  have a: "replace_vars ctx fr (p @ [arg_slot]) a = Inr (inline_names ctx (dom seen) a)"
    "replace_vars_once ctx fr (p @ [arg_slot]) a =
       Inr (inline_names ctx (dom seen) a, \<exists>n\<in>set (free_occ (dom seen) a). vars ctx n \<noteq> None)"
    by simp_all
  show ?case
    by (simp add: f a bex_Un)
next
  case (Lambda l al x b)
  from Lambda.prems(1) have b: "find_variables_free (map_insert seen x p) (p @ [body_slot]) b = Inr fs"
    by simp
  have "\<forall>v\<in>R. \<not> prefix (p @ [body_slot]) (fst v)"
  proof
    fix v
    assume "v \<in> R"
    with Lambda.prems(3) have "\<not> prefix p (fst v)" by blast
    then show "\<not> prefix (p @ [body_slot]) (fst v)"
      using prefix_snocD [of p body_slot "fst v"] by blast
  qed
  from Lambda.IH [OF b Lambda.prems(2) this] show ?case
    by (simp add: dom_map_insert)
next
  case (Let l n v)
  then show ?case by simp
qed


lemma inline_names_free:
  assumes "\<forall>n d. vars ctx n = Some d \<longrightarrow> (\<forall>k\<in>set (free_occ {} d). vars ctx k = None)"
  shows "\<forall>k\<in>set (free_occ S (inline_names ctx S e)). vars ctx k = None"
proof (induction e arbitrary: S)
  case (Var l n)
  show ?case
  proof (cases "vars ctx n")
    case None
    then show ?thesis by simp
  next
    case (Some d)
    have "set (free_occ S d) \<subseteq> set (free_occ {} d)"
      using free_occ_set [of S d] by auto
    with Some assms show ?thesis by auto
  qed
next
  case (Apply l f a)
  have "\<forall>k\<in>set (free_occ S (inline_names ctx S f)). vars ctx k = None"
    and "\<forall>k\<in>set (free_occ S (inline_names ctx S a)). vars ctx k = None"
    by (rule Apply.IH)+
  then show ?case by (simp add: ball_Un)
next
  case (Lambda l al x b)
  have "\<forall>k\<in>set (free_occ (insert x S) (inline_names ctx (insert x S) b)). vars ctx k = None"
    by (rule Lambda.IH)
  then show ?case by simp
qed simp


lemma inline_names_let_free:
  assumes "\<forall>n d. vars ctx n = Some d \<longrightarrow> let_free d"
  shows "let_free e \<Longrightarrow> let_free (inline_names ctx S e)"
  using assms by (induction e arbitrary: S) (auto split: option.splits)


lemma inline_names_id:
  "\<forall>k\<in>set (free_occ S e). vars ctx k = None \<Longrightarrow> inline_names ctx S e = e"
  by (induction e arbitrary: S) (auto split: option.splits)


lemma inline_names_depth:
  assumes "\<forall>n d. vars ctx n = Some d \<longrightarrow> binder_depth d \<le> K"
  shows "binder_depth (inline_names ctx S e) \<le> binder_depth e + K"
proof (induction e arbitrary: S)
  case (Var l n)
  then show ?case using assms by (auto split: option.splits)
next
  case (Apply l f a)
  have "binder_depth (inline_names ctx S f) \<le> binder_depth f + K"
    and "binder_depth (inline_names ctx S a) \<le> binder_depth a + K"
    by (rule Apply.IH)+
  then show ?case by auto
next
  case (Lambda l al x b)
  have "binder_depth (inline_names ctx (insert x S) b) \<le> binder_depth b + K"
    by (rule Lambda.IH)
  then show ?case by simp
qed simp


lemma find_free_variables_r2_eq:
  "int (binder_depth e) \<le> INT_MAX \<Longrightarrow> find_free_variables_r2 e = find_free_variables e"
  using find_variables_free_r2_eq [of 0 e Map.empty "[]"]
  by (simp add: find_free_variables_r2_def find_free_variables_def)


section \<open>Claim about the two context inliners\<close>

text \<open>
  Claim C8. Let no free variable of a definition of the context be a key of the context,
  and let \<open>e\<close> be a term without \<^verbatim>\<open>Let\<close> (the traversals of both inliners abort on one).
  Then the single pass of eval.cpp returns a term, and the loop of util.cpp terminates
  and returns the same term. The loop calls the \<^verbatim>\<open>find_free_variables\<close> of util.cpp, which
  stops below \<^verbatim>\<open>INT_MAX\<close> directly nested binders; the statement is for terms and
  definitions that stay below that.
\<close>

theorem fixed_point_inliner_agrees:
  assumes ctx: "\<forall>n d. vars ctx n = Some d \<longrightarrow>
        (\<exists>fd. find_free_variables d = Inr fd \<and> (\<forall>v\<in>set fd. vars ctx (snd v) = None))"
    and e: "find_free_variables e = Inr free"
    and depth: "int (binder_depth e) \<le> INT_MAX"
      "\<forall>n d. vars ctx n = Some d \<longrightarrow> int (binder_depth e) + int (binder_depth d) \<le> INT_MAX"
  shows "\<exists>r. replace_vars ctx free [] e = Inr r \<and> replace_vars_r2 ctx e = Some (Inr r)"
proof -
  define r where "r = inline_names ctx {} e"
  define K where "K = nat INT_MAX - binder_depth e"
  have ctx_free: "\<forall>n d. vars ctx n = Some d \<longrightarrow> (\<forall>k\<in>set (free_occ {} d). vars ctx k = None)"
  proof (intro allI impI)
    fix n d
    assume "vars ctx n = Some d"
    with ctx obtain fd where fd: "find_free_variables d = Inr fd" "\<forall>v\<in>set fd. vars ctx (snd v) = None"
      by blast
    have "set (free_occ {} d) = snd ` set fd"
      using find_free_variables_occ [OF fd(1)] by (metis set_map)
    with fd(2) show "\<forall>k\<in>set (free_occ {} d). vars ctx k = None"
      by auto
  qed
  have ctx_let: "\<forall>n d. vars ctx n = Some d \<longrightarrow> let_free d"
    using ctx find_variables_free_let_free unfolding find_free_variables_def by blast
  have ctx_depth: "\<forall>n d. vars ctx n = Some d \<longrightarrow> binder_depth d \<le> K"
  proof (intro allI impI)
    fix n d
    assume "vars ctx n = Some d"
    with depth(2) have "int (binder_depth e) + int (binder_depth d) \<le> INT_MAX"
      by blast
    then show "binder_depth d \<le> K"
      unfolding K_def by linarith
  qed
  have lf: "let_free e"
    using e find_variables_free_let_free unfolding find_free_variables_def by blast
  have pass: "replace_vars ctx free [] e = Inr r"
    "replace_vars_once ctx free [] e = Inr (r, \<exists>n\<in>set (free_occ {} e). vars ctx n \<noteq> None)"
    using replace_vars_by_name [OF e [unfolded find_free_variables_def], of free "{}" ctx]
    by (simp_all add: r_def)
  have e2: "find_free_variables_r2 e = Inr free"
    using find_free_variables_r2_eq [OF depth(1)] e by simp
  have lfr: "let_free r"
    unfolding r_def using ctx_let lf by (rule inline_names_let_free)
  then obtain free2 where free2: "find_free_variables r = Inr free2"
    unfolding find_free_variables_def
    using find_variables_free_total by blast
  have "binder_depth r \<le> binder_depth e + K"
    unfolding r_def using ctx_depth by (rule inline_names_depth)
  then have "int (binder_depth r) \<le> INT_MAX"
    using depth(1) by (simp add: K_def)
  then have r2: "find_free_variables_r2 r = Inr free2"
    using find_free_variables_r2_eq free2 by simp
  have nofree: "\<forall>k\<in>set (free_occ {} r). vars ctx k = None"
    unfolding r_def using ctx_free by (rule inline_names_free)
  have again: "replace_vars_once ctx free2 [] r = Inr (r, False)"
    using replace_vars_by_name [OF free2 [unfolded find_free_variables_def], of free2 "{}" ctx]
      inline_names_id [OF nofree] nofree
    by simp
  have stop: "replace_vars_r2 ctx r = Some (Inr r)"
    by (subst replace_vars_r2.simps) (simp add: r2 again)
  have "replace_vars_r2 ctx e = Some (Inr r)"
    by (subst replace_vars_r2.simps) (simp add: e2 pass stop)
  with pass(1) show ?thesis
    by blast
qed


theorem fixed_point_inliner_agrees_witness:
  "find_free_variables
     (Apply \<lparr>loc_begin = 0, loc_length = 1\<rparr>
        (Var \<lparr>loc_begin = 0, loc_length = 1\<rparr> ''I'')
        (Lambda \<lparr>loc_begin = 3, loc_length = 10\<rparr> \<lparr>loc_begin = 4, loc_length = 1\<rparr> ''y''
           (Apply \<lparr>loc_begin = 9, loc_length = 1\<rparr>
              (Var \<lparr>loc_begin = 9, loc_length = 1\<rparr> ''I'')
              (Var \<lparr>loc_begin = 11, loc_length = 1\<rparr> ''y'')))) = Inr [([fn_slot], ''I''), ([arg_slot, body_slot, fn_slot], ''I'')]
   \<and> replace_vars \<lparr>flags = 0, vars = [''I'' \<mapsto> (Lambda \<lparr>loc_begin = 8, loc_length = 7\<rparr> \<lparr>loc_begin = 9, loc_length = 1\<rparr> ''x''
               (Var \<lparr>loc_begin = 14, loc_length = 1\<rparr> ''x''))]\<rparr>
       [([fn_slot], ''I''), ([arg_slot, body_slot, fn_slot], ''I'')] []
     (Apply \<lparr>loc_begin = 0, loc_length = 1\<rparr>
        (Var \<lparr>loc_begin = 0, loc_length = 1\<rparr> ''I'')
        (Lambda \<lparr>loc_begin = 3, loc_length = 10\<rparr> \<lparr>loc_begin = 4, loc_length = 1\<rparr> ''y''
           (Apply \<lparr>loc_begin = 9, loc_length = 1\<rparr>
              (Var \<lparr>loc_begin = 9, loc_length = 1\<rparr> ''I'')
              (Var \<lparr>loc_begin = 11, loc_length = 1\<rparr> ''y'')))) = Inr
     (Apply \<lparr>loc_begin = 0, loc_length = 1\<rparr>
        (Lambda \<lparr>loc_begin = 8, loc_length = 7\<rparr> \<lparr>loc_begin = 9, loc_length = 1\<rparr> ''x''
               (Var \<lparr>loc_begin = 14, loc_length = 1\<rparr> ''x''))
        (Lambda \<lparr>loc_begin = 3, loc_length = 10\<rparr> \<lparr>loc_begin = 4, loc_length = 1\<rparr> ''y''
           (Apply \<lparr>loc_begin = 9, loc_length = 1\<rparr>
              (Lambda \<lparr>loc_begin = 8, loc_length = 7\<rparr> \<lparr>loc_begin = 9, loc_length = 1\<rparr> ''x''
               (Var \<lparr>loc_begin = 14, loc_length = 1\<rparr> ''x''))
              (Var \<lparr>loc_begin = 11, loc_length = 1\<rparr> ''y''))))
   \<and> replace_vars_r2 \<lparr>flags = 0, vars = [''I'' \<mapsto> (Lambda \<lparr>loc_begin = 8, loc_length = 7\<rparr> \<lparr>loc_begin = 9, loc_length = 1\<rparr> ''x''
               (Var \<lparr>loc_begin = 14, loc_length = 1\<rparr> ''x''))]\<rparr>
     (Apply \<lparr>loc_begin = 0, loc_length = 1\<rparr>
        (Var \<lparr>loc_begin = 0, loc_length = 1\<rparr> ''I'')
        (Lambda \<lparr>loc_begin = 3, loc_length = 10\<rparr> \<lparr>loc_begin = 4, loc_length = 1\<rparr> ''y''
           (Apply \<lparr>loc_begin = 9, loc_length = 1\<rparr>
              (Var \<lparr>loc_begin = 9, loc_length = 1\<rparr> ''I'')
              (Var \<lparr>loc_begin = 11, loc_length = 1\<rparr> ''y'')))) = Some (Inr
     (Apply \<lparr>loc_begin = 0, loc_length = 1\<rparr>
        (Lambda \<lparr>loc_begin = 8, loc_length = 7\<rparr> \<lparr>loc_begin = 9, loc_length = 1\<rparr> ''x''
               (Var \<lparr>loc_begin = 14, loc_length = 1\<rparr> ''x''))
        (Lambda \<lparr>loc_begin = 3, loc_length = 10\<rparr> \<lparr>loc_begin = 4, loc_length = 1\<rparr> ''y''
           (Apply \<lparr>loc_begin = 9, loc_length = 1\<rparr>
              (Lambda \<lparr>loc_begin = 8, loc_length = 7\<rparr> \<lparr>loc_begin = 9, loc_length = 1\<rparr> ''x''
               (Var \<lparr>loc_begin = 14, loc_length = 1\<rparr> ''x''))
              (Var \<lparr>loc_begin = 11, loc_length = 1\<rparr> ''y'')))))"
proof -
  let ?I = "(Lambda \<lparr>loc_begin = 8, loc_length = 7\<rparr> \<lparr>loc_begin = 9, loc_length = 1\<rparr> ''x''
               (Var \<lparr>loc_begin = 14, loc_length = 1\<rparr> ''x''))"
  let ?ctx = "\<lparr>flags = 0, vars = [''I'' \<mapsto> ?I]\<rparr>"
  let ?e = "(Apply \<lparr>loc_begin = 0, loc_length = 1\<rparr>
        (Var \<lparr>loc_begin = 0, loc_length = 1\<rparr> ''I'')
        (Lambda \<lparr>loc_begin = 3, loc_length = 10\<rparr> \<lparr>loc_begin = 4, loc_length = 1\<rparr> ''y''
           (Apply \<lparr>loc_begin = 9, loc_length = 1\<rparr>
              (Var \<lparr>loc_begin = 9, loc_length = 1\<rparr> ''I'')
              (Var \<lparr>loc_begin = 11, loc_length = 1\<rparr> ''y''))))"
  let ?free = "[([fn_slot], ''I''), ([arg_slot, body_slot, fn_slot], ''I'')]"
  have h1: "\<forall>n d. vars ?ctx n = Some d \<longrightarrow>
        (\<exists>fd. find_free_variables d = Inr fd \<and> (\<forall>v\<in>set fd. vars ?ctx (snd v) = None))"
    by (simp add: find_free_variables_def map_insert_def)
  have h2: "find_free_variables ?e = Inr ?free"
    by (simp add: find_free_variables_def map_insert_def)
  have h3: "int (binder_depth ?e) \<le> INT_MAX"
    by (simp add: INT_MAX_def)
  have h4: "\<forall>n d. vars ?ctx n = Some d \<longrightarrow> int (binder_depth ?e) + int (binder_depth d) \<le> INT_MAX"
    by (simp add: INT_MAX_def)
  from fixed_point_inliner_agrees [OF h1 h2 h3 h4] obtain r where
    r: "replace_vars ?ctx ?free [] ?e = Inr r" "replace_vars_r2 ?ctx ?e = Some (Inr r)"
    by blast
  have "replace_vars ?ctx ?free [] ?e = Inr
     (Apply \<lparr>loc_begin = 0, loc_length = 1\<rparr>
        (Lambda \<lparr>loc_begin = 8, loc_length = 7\<rparr> \<lparr>loc_begin = 9, loc_length = 1\<rparr> ''x''
               (Var \<lparr>loc_begin = 14, loc_length = 1\<rparr> ''x''))
        (Lambda \<lparr>loc_begin = 3, loc_length = 10\<rparr> \<lparr>loc_begin = 4, loc_length = 1\<rparr> ''y''
           (Apply \<lparr>loc_begin = 9, loc_length = 1\<rparr>
              (Lambda \<lparr>loc_begin = 8, loc_length = 7\<rparr> \<lparr>loc_begin = 9, loc_length = 1\<rparr> ''x''
               (Var \<lparr>loc_begin = 14, loc_length = 1\<rparr> ''x''))
              (Var \<lparr>loc_begin = 11, loc_length = 1\<rparr> ''y''))))"
    by simp
  with r h2 show ?thesis
    by simp
qed

section \<open>Facts: dependence on the layout\<close>












section \<open>Claim about determinism\<close>


text \<open>
  The returned term can depend on the layout as well, once a name and its primed form
  both clash: for \<^verbatim>\<open>(\\y y' -> y y') (y y')\<close> the two layouts return terms that are not even
  \<open>\<alpha>\<close>-equivalent.
\<close>

lemma result_depends_on_layout:
  "evaluate traversal_layout \<lparr>flags = 0, vars = Map.empty\<rparr>
     (Apply \<lparr>loc_begin = 0, loc_length = 0\<rparr>
        (Lambda \<lparr>loc_begin = 0, loc_length = 0\<rparr> \<lparr>loc_begin = 0, loc_length = 0\<rparr> ''y''
           (Lambda \<lparr>loc_begin = 0, loc_length = 0\<rparr> \<lparr>loc_begin = 0, loc_length = 0\<rparr> (fresh_name ''y'')
              (Apply \<lparr>loc_begin = 0, loc_length = 0\<rparr> (Var \<lparr>loc_begin = 0, loc_length = 0\<rparr> ''y'') (Var \<lparr>loc_begin = 0, loc_length = 0\<rparr> (fresh_name ''y'')))))
        (Apply \<lparr>loc_begin = 0, loc_length = 0\<rparr> (Var \<lparr>loc_begin = 0, loc_length = 0\<rparr> ''y'') (Var \<lparr>loc_begin = 0, loc_length = 0\<rparr> (fresh_name ''y'')))) 0
   = Some (Inr (\<lparr>flags = 0, vars = Map.empty\<rparr>,
       Lambda \<lparr>loc_begin = 0, loc_length = 0\<rparr> \<lparr>loc_begin = 0, loc_length = 0\<rparr> (fresh_name (fresh_name (fresh_name ''y'')))
         (Apply \<lparr>loc_begin = 0, loc_length = 0\<rparr> (Var \<lparr>loc_begin = 0, loc_length = 0\<rparr> ''y'') (Var \<lparr>loc_begin = 0, loc_length = 0\<rparr> (fresh_name (fresh_name (fresh_name ''y''))))),
       []))
   \<and> evaluate fn_high_layout \<lparr>flags = 0, vars = Map.empty\<rparr>
     (Apply \<lparr>loc_begin = 0, loc_length = 0\<rparr>
        (Lambda \<lparr>loc_begin = 0, loc_length = 0\<rparr> \<lparr>loc_begin = 0, loc_length = 0\<rparr> ''y''
           (Lambda \<lparr>loc_begin = 0, loc_length = 0\<rparr> \<lparr>loc_begin = 0, loc_length = 0\<rparr> (fresh_name ''y'')
              (Apply \<lparr>loc_begin = 0, loc_length = 0\<rparr> (Var \<lparr>loc_begin = 0, loc_length = 0\<rparr> ''y'') (Var \<lparr>loc_begin = 0, loc_length = 0\<rparr> (fresh_name ''y'')))))
        (Apply \<lparr>loc_begin = 0, loc_length = 0\<rparr> (Var \<lparr>loc_begin = 0, loc_length = 0\<rparr> ''y'') (Var \<lparr>loc_begin = 0, loc_length = 0\<rparr> (fresh_name ''y'')))) 0
   = Some (Inr (\<lparr>flags = 0, vars = Map.empty\<rparr>,
       Lambda \<lparr>loc_begin = 0, loc_length = 0\<rparr> \<lparr>loc_begin = 0, loc_length = 0\<rparr> (fresh_name (fresh_name ''y''))
         (Apply \<lparr>loc_begin = 0, loc_length = 0\<rparr>
            (Apply \<lparr>loc_begin = 0, loc_length = 0\<rparr> (Var \<lparr>loc_begin = 0, loc_length = 0\<rparr> ''y'') (Var \<lparr>loc_begin = 0, loc_length = 0\<rparr> (fresh_name ''y'')))
            (Var \<lparr>loc_begin = 0, loc_length = 0\<rparr> (fresh_name (fresh_name ''y'')))),
       []))"
  by (simp add: eval_defs eval_loop.simps print_trace_def FLAG_TRACE_def
      traversal_layout_def fn_high_layout_def Let_def)



end
